theory Spec2Isabelle
  imports Main "HOL-Library.Word" "HOL-Library.Signed_Division"
begin

unbundle bit_operations_syntax

section \<open>The WAV/ADPCM stream reader (RageSoundReader\_WAV.cpp)\<close>

text \<open>
  The reader is embedded function by function. C integers keep their widths: \<open>Uint8\<close>
  is \<open>8 word\<close>, \<open>Sint16\<close> and \<open>Uint16\<close> are \<open>16 word\<close>, \<open>int\<close>, \<open>Sint32\<close>
  and \<open>Uint32\<close> are \<open>32 word\<close>; \<open>sint\<close> and \<open>uint\<close> read them signed or unsigned as
  the C expression does. C's \<open>/\<close> on signed operands truncates towards zero, which is
  \<open>sdiv\<close> on \<open>int\<close>. File offsets (C's \<open>long\<close>) are unbounded integers: a \<open>long\<close> is
  taken to be wide enough for every offset the code passes, so the conversions
  \<open>Uint32 \<rightarrow> long\<close> and \<open>int \<rightarrow> long\<close> are \<open>uint\<close> and \<open>sint\<close>, and the conversions
  back (\<open>long \<rightarrow> int\<close>, \<open>long \<rightarrow> Uint32\<close>) cut to 32 bits. The host is little-endian, so
  \<open>SDL_SwapLE16\<close> and \<open>SDL_SwapLE32\<close> are the identity and the big-endian branch of
  \<open>Read\<close> is compiled out.
\<close>

subsection \<open>The C stream underneath\<close>

type_synonym byte = "8 word"

text \<open>A \<open>FILE*\<close> opened for reading: the bytes of the file and the cursor.\<close>

record FILE =
  contents :: "byte list"
  cursor :: nat

datatype whence = SEEK_SET | SEEK_END

text \<open>
  What the program does when C leaves the behaviour undefined or the runtime stops it:
  a failed \<open>ASSERT\<close>, an integer division by zero (or of \<open>INT_MIN\<close> by -1), an
  array index outside its array, a write past the end of a buffer.
\<close>

datatype fault = AssertFailed | DivideError | BadIndex | BufferOverrun

text \<open>
  The messages handed to \<open>SetError\<close>. \<open>SetError\<close> belongs to the base class, which is
  not among the sources; nothing in this file reads the message back. The model returns
  the message last set with the result of the call instead of keeping it in the state.
  \<open>StrError\<close> stands for \<open>strerror(errno)\<close>.
\<close>

datatype errmsg =
    EndOfFile
  | StrError
  | NotRIFF
  | NotWAVE
  | NoFormatChunk
  | CantReadFormatChunk
  | UnsupportedWAVFormat "16 word"
  | UnsupportedSampleSize "16 word"
  | NoDataChunk

text \<open>\<open>fread(buf, 1, n, rw)\<close>: the bytes available from the cursor, at most \<open>n\<close>.\<close>

definition fread :: "nat \<Rightarrow> FILE \<Rightarrow> byte list \<times> FILE" where
  "fread n f =
     (let bs = take n (drop (cursor f) (contents f))
      in (bs, f\<lparr>cursor := cursor f + length bs\<rparr>))"

text \<open>
  \<open>fseek\<close> returns 0 when it succeeds and -1 when it fails; it fails when the
  target offset is negative and then leaves the cursor alone.
\<close>

definition fseek :: "FILE \<Rightarrow> int \<Rightarrow> whence \<Rightarrow> 32 word \<times> FILE" where
  "fseek f off w =
     (let target = (case w of SEEK_SET \<Rightarrow> off | SEEK_END \<Rightarrow> int (length (contents f)) + off)
      in if target < 0 then (- 1, f) else (0, f\<lparr>cursor := nat target\<rparr>))"

definition ftell :: "FILE \<Rightarrow> int" where
  "ftell f = int (cursor f)"

text \<open>A little-endian integer from its bytes, least significant first.\<close>

fun le_word :: "byte list \<Rightarrow> 'a::len word" where
  "le_word [] = 0"
| "le_word (b # bs) = ucast b OR push_bit 8 (le_word bs)"

text \<open>
  \<open>read_le16\<close>, \<open>read_le32\<close> and \<open>read_uint8\<close>: one item of 2, 4 or 1 bytes. A short
  read fails with "end of file" and leaves the cursor after the bytes that were there.
\<close>

definition read_le16 :: "FILE \<Rightarrow> (errmsg + 16 word) \<times> FILE" where
  "read_le16 f =
     (let (bs, f') = fread 2 f
      in if length bs \<noteq> 2 then (Inl EndOfFile, f') else (Inr (le_word bs), f'))"

definition read_le32 :: "FILE \<Rightarrow> (errmsg + 32 word) \<times> FILE" where
  "read_le32 f =
     (let (bs, f') = fread 4 f
      in if length bs \<noteq> 4 then (Inl EndOfFile, f') else (Inr (le_word bs), f'))"

definition read_uint8 :: "FILE \<Rightarrow> (errmsg + byte) \<times> FILE" where
  "read_uint8 f =
     (let (bs, f') = fread 1 f
      in if length bs \<noteq> 1 then (Inl EndOfFile, f') else (Inr (le_word bs), f'))"

subsection \<open>The reader's data\<close>

text \<open>The two structs the source file declares itself.\<close>

record ADPCMCOEFSET =
  iCoef1 :: "16 word"
  iCoef2 :: "16 word"

text \<open>\<open>iSamp0\<close> is \<open>iSamp[0]\<close>, the newest sample, and \<open>iSamp1\<close> is \<open>iSamp[1]\<close>.\<close>

record ADPCMBLOCKHEADER =
  bPredictor :: byte
  iDelta :: "16 word"
  iSamp0 :: "16 word"
  iSamp1 :: "16 word"

text \<open>
  Modelled from the spec: the class declaration (RageSoundReader\_WAV.h), with the
  structs \<open>fmt_t\<close> and \<open>adpcm_t\<close>, the conversion modes and the members of the reader, is
  not among the sources. The fields are those the functions use; their widths follow
  the container layout of the specification (16-bit tag, channel count, block
  alignment, bit depth and ADPCM extension fields; 32-bit rates and offsets) and the
  uses in the source (\<open>Channels = (Uint8) fmt.wChannels\<close>, \<open>Uint8 nib = adpcm.nibble\<close>,
  the \<open>int\<close> parameters of \<open>ConvertMsToBytePos\<close>).
\<close>

record fmt_t =
  wFormatTag :: "16 word"
  wChannels :: "16 word"
  dwAvgBytesPerSec :: "32 word"
  wBlockAlign :: "16 word"
  wBitsPerSample :: "16 word"
  data_starting_offset :: "32 word"
  adpcm_sample_frame_size :: "32 word"

record adpcm_t =
  cbSize :: "16 word"
  wSamplesPerBlock :: "16 word"
  wNumCoef :: "16 word"
  aCoef :: "ADPCMCOEFSET list"
  blockheaders :: "ADPCMBLOCKHEADER list"
  samples_left_in_block :: "32 word"
  nibble_state :: "32 word"
  nibble :: byte

datatype conversion = CONV_NONE | CONV_8BIT_TO_16BIT | CONV_16LSB_TO_16SYS

record reader =
  rw :: FILE
  fmt :: fmt_t
  adpcm :: adpcm_t
  Channels :: byte
  SampleRate :: "32 word"
  BytesPerSample :: "32 word"
  Conversion :: conversion
  Input_Buffer_Ratio :: "32 word"

definition FMT_NORMAL :: "16 word" where "FMT_NORMAL = 1"
definition FMT_ADPCM :: "16 word" where "FMT_ADPCM = 2"

definition riffID :: "32 word" where "riffID = 0x46464952"
definition waveID :: "32 word" where "waveID = 0x45564157"
definition fmtID :: "32 word" where "fmtID = 0x20746D66"
definition dataID :: "32 word" where "dataID = 0x61746164"

subsection \<open>The ADPCM nibble step\<close>

definition FIXED_POINT_COEF_BASE :: int where "FIXED_POINT_COEF_BASE = 256"
definition FIXED_POINT_ADAPTION_BASE :: int where "FIXED_POINT_ADAPTION_BASE = 256"
definition SMALLEST_ADPCM_DELTA :: int where "SMALLEST_ADPCM_DELTA = 16"

definition max_audioval :: int where "max_audioval = 2 ^ 15 - 1"
definition min_audioval :: int where "min_audioval = - (2 ^ 15)"

definition AdaptionTable :: "int list" where
  "AdaptionTable = [230, 230, 230, 230, 307, 409, 512, 614,
                    768, 614, 512, 409, 307, 230, 230, 230]"

text \<open>
  Modelled from the spec: \<open>clamp\<close> comes from RageUtil.h, which is not among the
  sources. The specification uses it as \<open>clamp(value, INT16_MIN, INT16_MAX)\<close>: the value
  brought into the range from \<open>low\<close> to \<open>high\<close>.
\<close>

definition clamp :: "int \<Rightarrow> int \<Rightarrow> int \<Rightarrow> int" where
  "clamp val low high = max low (min val high)"

text \<open>
  \<open>do_adpcm_nibble(nib, header, lPredSamp)\<close>. The sums are C \<open>int\<close> arithmetic: the
  operands are read as integers (\<open>iDelta\<close> unsigned, \<open>nib\<close> unsigned), the 32-bit result
  is \<open>word_of_int\<close> of the exact value, and the stores into the 16-bit fields cut it
  to 16 bits. A nibble of 16 or more would index past the adaption table.
\<close>

definition do_adpcm_nibble ::
  "byte \<Rightarrow> ADPCMBLOCKHEADER \<Rightarrow> 32 word \<Rightarrow> fault + ADPCMBLOCKHEADER" where
  "do_adpcm_nibble nib header lPredSamp =
     (if 16 \<le> unat nib then Inl BadIndex
      else
        let lNewSamp0 :: 32 word =
              (if nib AND 0x08 \<noteq> 0
               then word_of_int (sint lPredSamp + uint (iDelta header) * (uint nib - 0x10))
               else word_of_int (sint lPredSamp + uint (iDelta header) * uint nib));
            lNewSamp :: 32 word = word_of_int (clamp (sint lNewSamp0) min_audioval max_audioval);
            delta0 :: 32 word =
              word_of_int ((uint (iDelta header) * (AdaptionTable ! unat nib))
                             sdiv FIXED_POINT_ADAPTION_BASE);
            delta :: 32 word = word_of_int (max (sint delta0) SMALLEST_ADPCM_DELTA)
        in Inr (header\<lparr>iDelta := ucast delta,
                        iSamp1 := iSamp0 header,
                        iSamp0 := ucast lNewSamp\<rparr>))"

text \<open>
  The prediction of \<open>decode_adpcm_sample_frame\<close>:
  \<open>((iSamp[0] * iCoef1) + (iSamp[1] * iCoef2)) / FIXED_POINT_COEF_BASE\<close> in \<open>int\<close>.
\<close>

definition lPredSamp_of :: "ADPCMCOEFSET \<Rightarrow> ADPCMBLOCKHEADER \<Rightarrow> 32 word" where
  "lPredSamp_of c header =
     word_of_int
       (sint (word_of_int (sint (iSamp0 header) * sint (iCoef1 c)
                           + sint (iSamp1 header) * sint (iCoef2 c)) :: 32 word)
          sdiv FIXED_POINT_COEF_BASE)"

subsection \<open>Reading the format chunk\<close>

text \<open>
  The coefficient loop of \<open>read_fmt_chunk\<close>, over the indices \<open>0 .. wNumCoef - 1\<close> of
  the freshly allocated array.
\<close>

fun read_coefs ::
  "nat list \<Rightarrow> ADPCMCOEFSET list \<Rightarrow> FILE \<Rightarrow> (errmsg + unit) \<times> ADPCMCOEFSET list \<times> FILE" where
  "read_coefs [] a f = (Inr (), a, f)"
| "read_coefs (i # is) a f =
     (case read_le16 f of
        (Inl e, f1) \<Rightarrow> (Inl e, a, f1)
      | (Inr c1, f1) \<Rightarrow>
          let a1 = a[i := (a ! i)\<lparr>iCoef1 := c1\<rparr>]
          in (case read_le16 f1 of
                (Inl e, f2) \<Rightarrow> (Inl e, a1, f2)
              | (Inr c2, f2) \<Rightarrow> read_coefs is (a1[i := (a1 ! i)\<lparr>iCoef2 := c2\<rparr>]) f2))"

text \<open>
  \<open>memset(&adpcm, 0, sizeof adpcm)\<close>, and the arrays \<open>new\<close> hands out. C leaves the
  elements of a new array uninitialised; the model fills them with zeros.
\<close>

definition adpcm_zero :: adpcm_t where
  "adpcm_zero = \<lparr>cbSize = 0, wSamplesPerBlock = 0, wNumCoef = 0, aCoef = [], blockheaders = [],
                  samples_left_in_block = 0, nibble_state = 0, nibble = 0\<rparr>"

definition new_coefs :: "nat \<Rightarrow> ADPCMCOEFSET list" where
  "new_coefs n = replicate n \<lparr>iCoef1 = 0, iCoef2 = 0\<rparr>"

definition new_headers :: "nat \<Rightarrow> ADPCMBLOCKHEADER list" where
  "new_headers n = replicate n \<lparr>bPredictor = 0, iDelta = 0, iSamp0 = 0, iSamp1 = 0\<rparr>"

definition read_fmt_chunk :: "reader \<Rightarrow> (errmsg + unit) \<times> reader" where
  "read_fmt_chunk s0 =
     (case read_le16 (rw s0) of
        (Inl e, f) \<Rightarrow> (Inl e, s0\<lparr>rw := f\<rparr>)
      | (Inr v, f) \<Rightarrow>
          (let s1 = s0\<lparr>rw := f, fmt := (fmt s0)\<lparr>wFormatTag := v\<rparr>\<rparr> in
     (case read_le16 (rw s1) of
        (Inl e, f) \<Rightarrow> (Inl e, s1\<lparr>rw := f\<rparr>)
      | (Inr v, f) \<Rightarrow>
          (let s2 = s1\<lparr>rw := f, fmt := (fmt s1)\<lparr>wChannels := v\<rparr>\<rparr> in
     (case read_le32 (rw s2) of
        (Inl e, f) \<Rightarrow> (Inl e, s2\<lparr>rw := f\<rparr>)
      | (Inr v, f) \<Rightarrow>
          (let s3 = s2\<lparr>rw := f, SampleRate := v\<rparr> in
     (case read_le32 (rw s3) of
        (Inl e, f) \<Rightarrow> (Inl e, s3\<lparr>rw := f\<rparr>)
      | (Inr v, f) \<Rightarrow>
          (let s4 = s3\<lparr>rw := f, fmt := (fmt s3)\<lparr>dwAvgBytesPerSec := v\<rparr>\<rparr> in
     (case read_le16 (rw s4) of
        (Inl e, f) \<Rightarrow> (Inl e, s4\<lparr>rw := f\<rparr>)
      | (Inr v, f) \<Rightarrow>
          (let s5 = s4\<lparr>rw := f, fmt := (fmt s4)\<lparr>wBlockAlign := v\<rparr>\<rparr> in
     (case read_le16 (rw s5) of
        (Inl e, f) \<Rightarrow> (Inl e, s5\<lparr>rw := f\<rparr>)
      | (Inr v, f) \<Rightarrow>
          (let s6 = s5\<lparr>rw := f, fmt := (fmt s5)\<lparr>wBitsPerSample := v\<rparr>\<rparr> in
     (if wFormatTag (fmt s6) = FMT_ADPCM then
        (let s7 = s6\<lparr>adpcm := adpcm_zero\<rparr> in
     (case read_le16 (rw s7) of
        (Inl e, f) \<Rightarrow> (Inl e, s7\<lparr>rw := f\<rparr>)
      | (Inr v, f) \<Rightarrow>
          (let s8 = s7\<lparr>rw := f, adpcm := (adpcm s7)\<lparr>cbSize := v\<rparr>\<rparr> in
     (case read_le16 (rw s8) of
        (Inl e, f) \<Rightarrow> (Inl e, s8\<lparr>rw := f\<rparr>)
      | (Inr v, f) \<Rightarrow>
          (let s9 = s8\<lparr>rw := f, adpcm := (adpcm s8)\<lparr>wSamplesPerBlock := v\<rparr>\<rparr> in
     (case read_le16 (rw s9) of
        (Inl e, f) \<Rightarrow> (Inl e, s9\<lparr>rw := f\<rparr>)
      | (Inr v, f) \<Rightarrow>
          (let s10 = s9\<lparr>rw := f, adpcm := (adpcm s9)\<lparr>wNumCoef := v\<rparr>\<rparr> in
     (let n = unat (wNumCoef (adpcm s10)) in
      (case read_coefs [0..<n] (new_coefs n) (rw s10) of
         (Inl e, a, f) \<Rightarrow> (Inl e, s10\<lparr>rw := f, adpcm := (adpcm s10)\<lparr>aCoef := a\<rparr>\<rparr>)
       | (Inr u, a, f) \<Rightarrow>
           (Inr (), s10\<lparr>rw := f,
                         adpcm := (adpcm s10)\<lparr>aCoef := a,
                                    blockheaders := new_headers (unat (wChannels (fmt s10)))\<rparr>\<rparr>))))))))))
      else (Inr (), s6))))))))))))))"

subsection \<open>Millisecond and byte positions\<close>

text \<open>
  \<open>ConvertMsToBytePos\<close> and \<open>ConvertBytePosToMs\<close> go through single-precision
  floating point: \<open>(Uint32) ((((float) SampleRate) / 1000.0f) * ((float) ms))\<close> and
  \<open>(Uint32) (frame_no / (((float) SampleRate) / 1000.0f))\<close>. The two float expressions
  are arguments of the two functions here, \<open>frames_of_ms\<close> and \<open>ms_of_frames\<close>, each a
  function of the sample rate and the integer operand, and the integer arithmetic
  around them is the source's. What the expressions compute in IEEE single precision is
  \<open>float_frames_of_ms\<close> and \<open>float_ms_of_frames\<close> below.
\<close>

type_synonym float_fn = "32 word \<Rightarrow> 32 word \<Rightarrow> 32 word"

definition ConvertMsToBytePos ::
  "float_fn \<Rightarrow> reader \<Rightarrow> 32 word \<Rightarrow> byte \<Rightarrow> 32 word \<Rightarrow> 32 word" where
  "ConvertMsToBytePos frames_of_ms s bytesPerSample channels ms =
     (let frame_offset = frames_of_ms (SampleRate s) ms;
          frame_size = bytesPerSample * ucast channels
      in frame_offset * frame_size)"


subsection \<open>Single-precision arithmetic\<close>

text \<open>
  The values of \<open>float\<close> that the two expressions can reach: \<open>F32 m e\<close> is the number
  \<open>m * 2^e\<close> with \<open>0 \<le> m\<close>, and a division by \<open>0.0f\<close> gives infinity or, for
  \<open>0.0f / 0.0f\<close>, not-a-number. No value is negative: \<open>ms\<close> and \<open>frame_no\<close> are \<open>Uint32\<close>,
  and \<open>SampleRate\<close> is read as the unsigned 32-bit field of the container. Every
  operation gives the exact result rounded to 24 significant bits, to the nearest value
  and to the even one of two nearest values, which is what IEEE 754 prescribes and what
  the host does when \<open>float\<close> expressions are evaluated in single precision. With 32-bit
  operands the results that are not 0 lie between \<open>2^-22\<close> and \<open>2^55\<close>, inside the range
  of normal single-precision numbers, so the exponent needs no bound.
\<close>

datatype f32 = F32 int int | Infinity | NaN

text \<open>The number of bits of a positive integer.\<close>

function bit_length :: "int \<Rightarrow> nat" where
  "bit_length m = (if m \<le> 0 then 0 else Suc (bit_length (m div 2)))"
  by pat_completeness auto
termination by (relation "measure nat") auto

declare bit_length.simps [simp del]

text \<open>
  Rounding \<open>m * 2^e\<close> to 24 significant bits: the low \<open>sh\<close> bits are cut off and the rest
  goes up by one when they are more than half a unit, or exactly half with an odd rest.
\<close>

definition round_to_f32 :: "int \<Rightarrow> int \<Rightarrow> f32" where
  "round_to_f32 m e =
     (if bit_length m \<le> 24 then F32 m e
      else
        let sh = bit_length m - 24;
            q = m div 2 ^ sh;
            r = m mod 2 ^ sh;
            half = 2 ^ (sh - 1)
        in F32 (if half < r \<or> (r = half \<and> odd q) then q + 1 else q) (e + int sh))"

text \<open>\<open>(float) x\<close> for a \<open>Uint32\<close>, and the constant \<open>1000.0f\<close>.\<close>

definition f32_of_Uint32 :: "32 word \<Rightarrow> f32" where
  "f32_of_Uint32 w = round_to_f32 (uint w) 0"

definition f32_1000 :: f32 where
  "f32_1000 = F32 1000 0"

fun f32_mul :: "f32 \<Rightarrow> f32 \<Rightarrow> f32" where
  "f32_mul (F32 a ea) (F32 b eb) = round_to_f32 (a * b) (ea + eb)"
| "f32_mul (F32 a ea) Infinity = (if a = 0 then NaN else Infinity)"
| "f32_mul Infinity (F32 b eb) = (if b = 0 then NaN else Infinity)"
| "f32_mul Infinity Infinity = Infinity"
| "f32_mul NaN y = NaN"
| "f32_mul x NaN = NaN"

text \<open>
  The quotient: the numerator is scaled by \<open>2^s\<close> so that the integer quotient has at least
  26 bits, and a remainder that is not 0 is kept as one more low bit, which is enough for
  the rounding to see on which side of the half unit the exact quotient lies.
\<close>

fun f32_div :: "f32 \<Rightarrow> f32 \<Rightarrow> f32" where
  "f32_div (F32 a ea) (F32 b eb) =
     (if b = 0 then (if a = 0 then NaN else Infinity)
      else
        let s = 26 + bit_length b - bit_length a;
            q = (a * 2 ^ s) div b;
            r = (a * 2 ^ s) mod b
        in round_to_f32 (2 * q + (if r = 0 then 0 else 1)) (ea - eb - int s - 1))"
| "f32_div (F32 a ea) Infinity = F32 0 0"
| "f32_div Infinity (F32 b eb) = Infinity"
| "f32_div Infinity Infinity = NaN"
| "f32_div NaN y = NaN"
| "f32_div x NaN = NaN"

text \<open>
  \<open>(Uint32) x\<close> cuts the fraction off. C leaves the conversion undefined when the result
  does not fit a \<open>Uint32\<close>, and for infinity and not-a-number: \<open>None\<close>.
\<close>

fun Uint32_of_f32 :: "f32 \<Rightarrow> 32 word option" where
  "Uint32_of_f32 (F32 m e) =
     (let n = (if 0 \<le> e then m * 2 ^ nat e else m div 2 ^ nat (- e))
      in if n < 2 ^ 32 then Some (word_of_int n) else None)"
| "Uint32_of_f32 Infinity = None"
| "Uint32_of_f32 NaN = None"

text \<open>
  The two float expressions of the source, \<open>frames_per_ms\<close> first as the source has it.
\<close>

definition float_frame_offset :: "32 word \<Rightarrow> 32 word \<Rightarrow> 32 word option" where
  "float_frame_offset rate ms =
     (let frames_per_ms = f32_div (f32_of_Uint32 rate) f32_1000
      in Uint32_of_f32 (f32_mul frames_per_ms (f32_of_Uint32 ms)))"


text \<open>
  As arguments of \<open>ConvertMsToBytePos\<close> and \<open>ConvertBytePosToMs\<close>. Where C leaves the
  conversion undefined the value here is 0. The properties of seeking and of the
  length query hold for every pair of functions in their place, and the property of the
  two conversions says that the conversion is defined.
\<close>

definition float_frames_of_ms :: float_fn where
  "float_frames_of_ms rate ms = (case float_frame_offset rate ms of Some w \<Rightarrow> w | None \<Rightarrow> 0)"


text \<open>C's \<open>/\<close> and \<open>%\<close> on two \<open>int\<close>s.\<close>

definition int_div :: "32 word \<Rightarrow> 32 word \<Rightarrow> fault + 32 word" where
  "int_div a b =
     (if b = 0 \<or> (sint a = - (2 ^ 31) \<and> sint b = - 1) then Inl DivideError
      else Inr (word_of_int (sint a sdiv sint b)))"

definition int_mod :: "32 word \<Rightarrow> 32 word \<Rightarrow> fault + 32 word" where
  "int_mod a b =
     (if b = 0 \<or> (sint a = - (2 ^ 31) \<and> sint b = - 1) then Inl DivideError
      else Inr (word_of_int (sint a smod sint b)))"

subsection \<open>Uncompressed data\<close>

text \<open>
  Writing \<open>bs\<close> into the caller's buffer at byte offset \<open>off\<close>. The buffer is the array
  the caller passed; a write that does not fit is a fault.
\<close>

definition write_bytes :: "byte list \<Rightarrow> nat \<Rightarrow> byte list \<Rightarrow> fault + byte list" where
  "write_bytes buf off bs =
     (if length buf < off + length bs then Inl BufferOverrun
      else Inr (take off buf @ bs @ drop (off + length bs) buf))"

definition read_sample_fmt_normal ::
  "byte list \<Rightarrow> 32 word \<Rightarrow> reader \<Rightarrow> fault + (32 word \<times> byte list \<times> errmsg option \<times> reader)" where
  "read_sample_fmt_normal buf len s =
     (let (bs, f) = fread (unat len) (rw s);
          ret :: 32 word = of_nat (length bs)
      in case write_bytes buf 0 bs of
           Inl x \<Rightarrow> Inl x
         | Inr buf' \<Rightarrow>
             if ret = - 1 then Inr (- 1, buf', Some StrError, s\<lparr>rw := f\<rparr>)
             else Inr (ret, buf', None, s\<lparr>rw := f\<rparr>))"

definition seek_sample_fmt_normal ::
  "float_fn \<Rightarrow> 32 word \<Rightarrow> reader \<Rightarrow> 32 word \<times> reader" where
  "seek_sample_fmt_normal frames_of_ms ms s =
     (let offset = ConvertMsToBytePos frames_of_ms s (BytesPerSample s) (Channels s) ms;
          pos = data_starting_offset (fmt s) + offset;
          (rc, f) = fseek (rw s) (sint pos) SEEK_SET
      in if rc \<noteq> pos then (- 1, s\<lparr>rw := f\<rparr>) else (ms, s\<lparr>rw := f\<rparr>))"


subsection \<open>ADPCM blocks\<close>

text \<open>
  One of the four loops of \<open>read_adpcm_block_headers\<close>: for each channel, read one item
  with \<open>rd\<close> and store it into that channel's header with \<open>upd\<close>. A failed read ends
  the function; the header array is indexed as the source indexes it, and an index
  outside it is a fault.
\<close>

fun read_header_fields ::
  "(FILE \<Rightarrow> (errmsg + 'v) \<times> FILE) \<Rightarrow> ('v \<Rightarrow> ADPCMBLOCKHEADER \<Rightarrow> ADPCMBLOCKHEADER) \<Rightarrow>
   nat list \<Rightarrow> ADPCMBLOCKHEADER list \<Rightarrow> FILE \<Rightarrow>
   fault + ((errmsg + unit) \<times> ADPCMBLOCKHEADER list \<times> FILE)" where
  "read_header_fields rd upd [] hs f = Inr (Inr (), hs, f)"
| "read_header_fields rd upd (i # is) hs f =
     (case rd f of
        (Inl e, f1) \<Rightarrow> Inr (Inl e, hs, f1)
      | (Inr v, f1) \<Rightarrow>
          if length hs \<le> i then Inl BadIndex
          else read_header_fields rd upd is (hs[i := upd v (hs ! i)]) f1)"

text \<open>
  \<open>read_adpcm_block_headers(out)\<close> reads through \<open>this->rw\<close> and \<open>this->fmt.wChannels\<close>
  and writes into \<open>out\<close>, which is \<open>this->adpcm\<close> in the decoder and a local in the
  length query. It returns the outcome, the new \<open>out\<close> and the reader with the moved
  cursor.
\<close>

definition read_adpcm_block_headers ::
  "reader \<Rightarrow> adpcm_t \<Rightarrow> fault + ((errmsg + unit) \<times> adpcm_t \<times> reader)" where
  "read_adpcm_block_headers s out =
     (let chans = [0..<unat (wChannels (fmt s))] in
      (case read_header_fields read_uint8 (\<lambda>v h. h\<lparr>bPredictor := v\<rparr>) chans (blockheaders out) (rw s) of
         Inl x \<Rightarrow> Inl x
       | Inr (Inl e, hs1, f1) \<Rightarrow> Inr (Inl e, out\<lparr>blockheaders := hs1\<rparr>, s\<lparr>rw := f1\<rparr>)
       | Inr (Inr u, hs1, f1) \<Rightarrow>
      (case read_header_fields read_le16 (\<lambda>v h. h\<lparr>iDelta := v\<rparr>) chans (hs1) (f1) of
         Inl x \<Rightarrow> Inl x
       | Inr (Inl e, hs2, f2) \<Rightarrow> Inr (Inl e, out\<lparr>blockheaders := hs2\<rparr>, s\<lparr>rw := f2\<rparr>)
       | Inr (Inr u, hs2, f2) \<Rightarrow>
      (case read_header_fields read_le16 (\<lambda>v h. h\<lparr>iSamp0 := v\<rparr>) chans (hs2) (f2) of
         Inl x \<Rightarrow> Inl x
       | Inr (Inl e, hs3, f3) \<Rightarrow> Inr (Inl e, out\<lparr>blockheaders := hs3\<rparr>, s\<lparr>rw := f3\<rparr>)
       | Inr (Inr u, hs3, f3) \<Rightarrow>
      (case read_header_fields read_le16 (\<lambda>v h. h\<lparr>iSamp1 := v\<rparr>) chans (hs3) (f3) of
         Inl x \<Rightarrow> Inl x
       | Inr (Inl e, hs4, f4) \<Rightarrow> Inr (Inl e, out\<lparr>blockheaders := hs4\<rparr>, s\<lparr>rw := f4\<rparr>)
       | Inr (Inr u, hs4, f4) \<Rightarrow>
          Inr (Inr (), out\<lparr>blockheaders := hs4,
                            samples_left_in_block := ucast (wSamplesPerBlock out),
                            nibble_state := 0\<rparr>,
               s\<lparr>rw := f4\<rparr>))))))"

text \<open>
  The channel loop of \<open>decode_adpcm_sample_frame\<close>, carrying the local \<open>nib\<close>. The high
  nibble of a fresh byte is used first (\<open>nib >> 4\<close>), the low nibble (\<open>nib & 0x0F\<close>) by
  the next step.
\<close>

fun decode_channels ::
  "nat list \<Rightarrow> byte \<Rightarrow> adpcm_t \<Rightarrow> FILE \<Rightarrow> fault + ((errmsg + byte) \<times> adpcm_t \<times> FILE)" where
  "decode_channels [] nib a f = Inr (Inr nib, a, f)"
| "decode_channels (i # is) nib a f =
     (if length (blockheaders a) \<le> i then Inl BadIndex
      else
        let h = blockheaders a ! i in
        if length (aCoef a) \<le> unat (bPredictor h) then Inl BadIndex
        else
          let lPredSamp = lPredSamp_of (aCoef a ! unat (bPredictor h)) h in
          if nibble_state a = 0 then
            (case read_uint8 f of
               (Inl e, f1) \<Rightarrow> Inr (Inl e, a, f1)
             | (Inr nib1, f1) \<Rightarrow>
                 (case do_adpcm_nibble (drop_bit 4 nib1) h lPredSamp of
                    Inl x \<Rightarrow> Inl x
                  | Inr h' \<Rightarrow>
                      decode_channels is nib1
                        (a\<lparr>nibble_state := 1, blockheaders := (blockheaders a)[i := h']\<rparr>) f1))
          else
            (case do_adpcm_nibble (nib AND 0x0F) h lPredSamp of
               Inl x \<Rightarrow> Inl x
             | Inr h' \<Rightarrow>
                 decode_channels is nib
                   (a\<lparr>nibble_state := 0, blockheaders := (blockheaders a)[i := h']\<rparr>) f))"

definition decode_adpcm_sample_frame :: "reader \<Rightarrow> fault + ((errmsg + unit) \<times> reader)" where
  "decode_adpcm_sample_frame s =
     (case decode_channels [0..<unat (wChannels (fmt s))] (nibble (adpcm s)) (adpcm s) (rw s) of
        Inl x \<Rightarrow> Inl x
      | Inr (Inl e, a, f) \<Rightarrow> Inr (Inl e, s\<lparr>adpcm := a, rw := f\<rparr>)
      | Inr (Inr nib, a, f) \<Rightarrow> Inr (Inr (), s\<lparr>adpcm := a\<lparr>nibble := nib\<rparr>, rw := f\<rparr>))"

text \<open>A 16-bit value as the two bytes a little-endian host stores.\<close>

definition le_bytes16 :: "16 word \<Rightarrow> byte list" where
  "le_bytes16 w = [ucast w, ucast (drop_bit 8 w)]"

text \<open>
  \<open>put_adpcm_sample_frame(buf + off, frame)\<close>: sample \<open>iSamp[frame]\<close> of every channel,
  one after the other.
\<close>

definition put_adpcm_sample_frame :: "byte list \<Rightarrow> nat \<Rightarrow> nat \<Rightarrow> reader \<Rightarrow> fault + byte list" where
  "put_adpcm_sample_frame buf off frame s =
     (let n = unat (wChannels (fmt s)); hs = blockheaders (adpcm s)
      in if length hs < n then Inl BadIndex
         else write_bytes buf off
                (concat (map (\<lambda>i. le_bytes16 (if frame = 0 then iSamp0 (hs ! i) else iSamp1 (hs ! i)))
                             [0..<n])))"

definition dec_samples_left :: "reader \<Rightarrow> reader" where
  "dec_samples_left s =
     s\<lparr>adpcm := (adpcm s)\<lparr>samples_left_in_block := samples_left_in_block (adpcm s) - 1\<rparr>\<rparr>"

text \<open>
  The \<open>while (bw < len)\<close> loop of \<open>read_sample_fmt_adpcm\<close>. It need not end (a frame
  size of 0 never advances \<open>bw\<close>), so not returning is the value \<open>None\<close>.
\<close>

partial_function (option) read_adpcm_loop ::
  "32 word \<Rightarrow> 32 word \<Rightarrow> byte list \<Rightarrow> reader \<Rightarrow>
   (fault + (32 word \<times> byte list \<times> errmsg option \<times> reader)) option" where
  "read_adpcm_loop len bw buf s =
     (if bw < len then
        (if samples_left_in_block (adpcm s) = 0 then
           (case read_adpcm_block_headers s (adpcm s) of
              Inl x \<Rightarrow> Some (Inl x)
            | Inr (Inl e, a, s1) \<Rightarrow> Some (Inr (bw, buf, Some e, s1\<lparr>adpcm := a\<rparr>))
            | Inr (Inr u, a, s1) \<Rightarrow>
                (case put_adpcm_sample_frame buf (unat bw) 1 (s1\<lparr>adpcm := a\<rparr>) of
                   Inl x \<Rightarrow> Some (Inl x)
                 | Inr buf' \<Rightarrow>
                     read_adpcm_loop len (bw + adpcm_sample_frame_size (fmt s1)) buf'
                       (dec_samples_left (s1\<lparr>adpcm := a\<rparr>))))
         else if samples_left_in_block (adpcm s) = 1 then
           (case put_adpcm_sample_frame buf (unat bw) 0 s of
              Inl x \<Rightarrow> Some (Inl x)
            | Inr buf' \<Rightarrow>
                read_adpcm_loop len (bw + adpcm_sample_frame_size (fmt s)) buf'
                  (dec_samples_left s))
         else
           (case put_adpcm_sample_frame buf (unat bw) 0 s of
              Inl x \<Rightarrow> Some (Inl x)
            | Inr buf' \<Rightarrow>
                (case decode_adpcm_sample_frame (dec_samples_left s) of
                   Inl x \<Rightarrow> Some (Inl x)
                 | Inr (Inl e, s1) \<Rightarrow>
                     Some (Inr (bw + adpcm_sample_frame_size (fmt s), buf', Some e, s1))
                 | Inr (Inr u, s1) \<Rightarrow>
                     read_adpcm_loop len (bw + adpcm_sample_frame_size (fmt s)) buf' s1)))
      else Some (Inr (bw, buf, None, s)))"

declare read_adpcm_loop.simps [code]

definition read_sample_fmt_adpcm ::
  "byte list \<Rightarrow> 32 word \<Rightarrow> reader \<Rightarrow>
   (fault + (32 word \<times> byte list \<times> errmsg option \<times> reader)) option" where
  "read_sample_fmt_adpcm buf len s = read_adpcm_loop len 0 buf s"

text \<open>
  The \<open>while (rc > 0)\<close> loop of \<open>seek_sample_fmt_adpcm\<close>; the result is the message of
  the failed decode, if one failed, and the reader.
\<close>

partial_function (option) seek_adpcm_loop ::
  "32 word \<Rightarrow> reader \<Rightarrow> (fault + (errmsg option \<times> reader)) option" where
  "seek_adpcm_loop rc s =
     (if 0 <s rc then
        (case decode_adpcm_sample_frame s of
           Inl x \<Rightarrow> Some (Inl x)
         | Inr (Inl e, s1) \<Rightarrow>
             let (r, f) = fseek (rw s1) 0 SEEK_SET
             in Some (Inr (Some e,
                           s1\<lparr>rw := f, adpcm := (adpcm s1)\<lparr>samples_left_in_block := 0\<rparr>\<rparr>))
         | Inr (Inr u, s1) \<Rightarrow>
             seek_adpcm_loop (rc - adpcm_sample_frame_size (fmt s1)) (dec_samples_left s1))
      else Some (Inr (None, s)))"

declare seek_adpcm_loop.simps [code]

definition seek_sample_fmt_adpcm ::
  "float_fn \<Rightarrow> 32 word \<Rightarrow> reader \<Rightarrow> (fault + (32 word \<times> errmsg option \<times> reader)) option" where
  "seek_sample_fmt_adpcm frames_of_ms ms s =
     (let offset = ConvertMsToBytePos frames_of_ms s (BytesPerSample s) (Channels s) ms;
          bpb = ucast (wSamplesPerBlock (adpcm s)) * adpcm_sample_frame_size (fmt s)
      in case int_div offset bpb of
           Inl x \<Rightarrow> Some (Inl x)
         | Inr q \<Rightarrow>
             let skipsize = q * ucast (wBlockAlign (fmt s));
                 pos = skipsize + data_starting_offset (fmt s);
                 (rc, f) = fseek (rw s) (sint pos) SEEK_SET;
                 s1 = s\<lparr>rw := f\<rparr>
             in if rc = - 1 then Some (Inr (0, Some StrError, s1))
                else if rc \<noteq> pos then Some (Inr (0, Some EndOfFile, s1))
                else
                  (case int_mod offset bpb of
                     Inl x \<Rightarrow> Some (Inl x)
                   | Inr rc1 \<Rightarrow>
                       (case read_adpcm_block_headers s1 (adpcm s1) of
                          Inl x \<Rightarrow> Some (Inl x)
                        | Inr (Inl e, a, s2) \<Rightarrow>
                            let (r, f2) = fseek (rw s2) 0 SEEK_SET
                            in Some (Inr (0, Some e,
                                          s2\<lparr>rw := f2, adpcm := a\<lparr>samples_left_in_block := 0\<rparr>\<rparr>))
                        | Inr (Inr u, a, s2) \<Rightarrow>
                            let s3 = dec_samples_left (s2\<lparr>adpcm := a\<rparr>)
                            in (case seek_adpcm_loop (rc1 - adpcm_sample_frame_size (fmt s3)) s3 of
                                  None \<Rightarrow> None
                                | Some (Inl x) \<Rightarrow> Some (Inl x)
                                | Some (Inr (Some e, s4)) \<Rightarrow> Some (Inr (0, Some e, s4))
                                | Some (Inr (None, s4)) \<Rightarrow> Some (Inr (ms, None, s4))))))"


subsection \<open>Read\<close>

text \<open>
  \<open>(Sint16(buf[s]) - 128) << 8\<close>, stored into a \<open>Sint16\<close>. \<open>buf\<close> is a \<open>char*\<close>; \<open>char\<close>
  is signed on the hosts the program is built for, so the byte is sign-extended first.
  The subtraction and the shift are \<open>int\<close> arithmetic and the store keeps the low 16
  bits. (Where \<open>char\<close> is unsigned the stored 16 bits are the same, since the two
  readings of the byte differ by 256 and the shift multiplies by 256.)
\<close>

definition widen8 :: "byte \<Rightarrow> 16 word" where
  "widen8 b = ucast (push_bit 8 ((scast b :: 32 word) - 128))"

text \<open>The two conversion loops of \<open>Read\<close>, over the sample indices.\<close>

fun widen_samples :: "nat list \<Rightarrow> byte list \<Rightarrow> 16 word list \<Rightarrow> fault + 16 word list" where
  "widen_samples [] buf t = Inr t"
| "widen_samples (i # is) buf t =
     (if length buf \<le> i \<or> length t \<le> i then Inl BadIndex
      else widen_samples is buf (t[i := widen8 (buf ! i)]))"

fun dup_samples :: "nat list \<Rightarrow> byte list \<Rightarrow> 16 word list \<Rightarrow> fault + 16 word list" where
  "dup_samples [] buf t = Inr t"
| "dup_samples (i # is) buf t =
     (if length buf < 2 * i + 2 \<or> length t < 2 * i + 2 then Inl BadIndex
      else
        let v :: 16 word = le_word [buf ! (2 * i), buf ! (2 * i + 1)]
        in dup_samples is buf (t[2 * i + 1 := v, 2 * i := v]))"

text \<open>\<open>memcpy(buf, tmpbuf, ret * sizeof(Sint16))\<close>.\<close>

definition copy_samples :: "byte list \<Rightarrow> 16 word list \<Rightarrow> 32 word \<Rightarrow> fault + byte list" where
  "copy_samples buf t ret =
     (if sint ret < 0 \<or> length t < nat (sint ret) then Inl BufferOverrun
      else write_bytes buf 0 (concat (map le_bytes16 (take (nat (sint ret)) t))))"

text \<open>
  \<open>new Sint16[len]\<close>. The new array is not initialised: \<open>fresh i\<close> is what its memory
  holds at index \<open>i\<close>.
\<close>

definition new_samples :: "(nat \<Rightarrow> 16 word) \<Rightarrow> nat \<Rightarrow> 16 word list" where
  "new_samples fresh n = map fresh [0..<n]"

text \<open>
  \<open>Read(buf, len)\<close>. \<open>buf\<close> is the caller's array and \<open>tmpbuf\<close> the function's static
  scratch array, whose length is \<open>tmpbufsize\<close>; both are returned as they are left.
  \<open>fresh\<close> is the memory a new scratch array is made of.
\<close>

definition Read ::
  "(nat \<Rightarrow> 16 word) \<Rightarrow> 16 word list \<Rightarrow> byte list \<Rightarrow> 32 word \<Rightarrow> reader \<Rightarrow>
   (fault + (32 word \<times> byte list \<times> 16 word list \<times> errmsg option \<times> reader)) option" where
  "Read fresh tmpbuf buf len s =
     (if Input_Buffer_Ratio s = 0 then Some (Inl DivideError)
      else if len mod Input_Buffer_Ratio s \<noteq> 0 then Some (Inl AssertFailed)
      else
        (let ActualLen = len div Input_Buffer_Ratio s in
         (case (if wFormatTag (fmt s) = FMT_NORMAL
                then Some (read_sample_fmt_normal buf ActualLen s)
                else if wFormatTag (fmt s) = FMT_ADPCM
                then read_sample_fmt_adpcm buf ActualLen s
                else Some (Inl AssertFailed)) of
            None \<Rightarrow> None
          | Some (Inl x) \<Rightarrow> Some (Inl x)
          | Some (Inr (ret, buf1, e, s1)) \<Rightarrow>
              (if ret \<le>s 0 then Some (Inr (ret, buf1, tmpbuf, e, s1))
               else
                 (let tmpbuf1 = (if length tmpbuf < unat len then new_samples fresh (unat len)
                                 else tmpbuf) in
                  (case (if Conversion s1 = CONV_8BIT_TO_16BIT then
                           (case widen_samples [0..<nat (sint ret)] buf1 tmpbuf1 of
                              Inl x \<Rightarrow> Inl x
                            | Inr t \<Rightarrow>
                                (case copy_samples buf1 t ret of
                                   Inl x \<Rightarrow> Inl x
                                 | Inr b \<Rightarrow> Inr (ret * 2, b, t)))
                         else Inr (ret, buf1, tmpbuf1)) of
                     Inl x \<Rightarrow> Some (Inl x)
                   | Inr (ret2, buf2, tmpbuf2) \<Rightarrow>
                       (case (if Channels s1 = 1 then
                                (case int_div ret2 2 of
                                   Inl x \<Rightarrow> Inl x
                                 | Inr half \<Rightarrow>
                                     (case dup_samples [0..<nat (sint half)] buf2 tmpbuf2 of
                                        Inl x \<Rightarrow> Inl x
                                      | Inr t \<Rightarrow>
                                          (case copy_samples buf2 t ret2 of
                                             Inl x \<Rightarrow> Inl x
                                           | Inr b \<Rightarrow> Inr (ret2 * 2, b, t))))
                              else Inr (ret2, buf2, tmpbuf2)) of
                          Inl x \<Rightarrow> Some (Inl x)
                        | Inr (ret3, buf3, tmpbuf3) \<Rightarrow>
                            Some (Inr (ret3, buf3, tmpbuf3, e, s1)))))))))"

subsection \<open>SetPosition and GetLength\<close>

definition SetPosition ::
  "float_fn \<Rightarrow> 32 word \<Rightarrow> reader \<Rightarrow> (fault + (32 word \<times> errmsg option \<times> reader)) option" where
  "SetPosition frames_of_ms ms s =
     (if wFormatTag (fmt s) = FMT_NORMAL then
        (let (r, s1) = seek_sample_fmt_normal frames_of_ms ms s in Some (Inr (r, None, s1)))
      else if wFormatTag (fmt s) = FMT_ADPCM then seek_sample_fmt_adpcm frames_of_ms ms s
      else Some (Inl AssertFailed))"


subsection \<open>Opening\<close>

text \<open>
  The loop of \<open>find_chunk\<close>, with the local \<open>pos\<close>. The result is the size of the chunk
  found, or the failure with the message that was set, if one was. The loop reads a
  header at every round and stops when a read fails; on a file long enough for \<open>pos\<close>
  to wrap around it need not stop, so not returning is the value \<open>None\<close>.
\<close>

partial_function (option) find_chunk_loop ::
  "32 word \<Rightarrow> 32 word \<Rightarrow> FILE \<Rightarrow> ((errmsg option + 32 word) \<times> FILE) option" where
  "find_chunk_loop chunk_id pos f =
     (case read_le32 f of
        (Inl e, f1) \<Rightarrow> Some (Inl (Some e), f1)
      | (Inr id', f1) \<Rightarrow>
          (case read_le32 f1 of
             (Inl e, f2) \<Rightarrow> Some (Inl (Some e), f2)
           | (Inr chunk_size, f2) \<Rightarrow>
               if id' = chunk_id then Some (Inr chunk_size, f2)
               else if chunk_size <s 0 then Some (Inl None, f2)
               else
                 let pos' = pos + 8 + chunk_size;
                     (ret, f3) = fseek f2 (uint pos') SEEK_SET
                 in if ret = - 1 then Some (Inl (Some StrError), f3)
                    else find_chunk_loop chunk_id pos' f3))"

declare find_chunk_loop.simps [code]

definition find_chunk :: "32 word \<Rightarrow> FILE \<Rightarrow> ((errmsg option + 32 word) \<times> FILE) option" where
  "find_chunk chunk_id f = find_chunk_loop chunk_id (word_of_int (ftell f)) f"

text \<open>
  Modelled from the spec: the result type of the base class is not among the sources;
  the specification gives it as \<open>OpenResult{Ok, NoMatch, MatchButFailed}\<close>, and the
  source names the three values.
\<close>

datatype OpenResult = OPEN_OK | OPEN_NO_MATCH | OPEN_MATCH_BUT_FAIL

definition WAV_open_internal ::
  "reader \<Rightarrow> (fault + (OpenResult \<times> errmsg option \<times> reader)) option" where
  "WAV_open_internal s0 =
     (case read_le32 (rw s0) of
        (Inl e, f1) \<Rightarrow> Some (Inr (OPEN_NO_MATCH, Some NotRIFF, s0\<lparr>rw := f1\<rparr>))
      | (Inr magic1, f1) \<Rightarrow>
     (if magic1 \<noteq> riffID then Some (Inr (OPEN_NO_MATCH, Some NotRIFF, s0\<lparr>rw := f1\<rparr>))
      else
     (let (ignore, f2) = read_le32 f1 in
     (case read_le32 f2 of
        (Inl e, f3) \<Rightarrow> Some (Inr (OPEN_NO_MATCH, Some NotWAVE, s0\<lparr>rw := f3\<rparr>))
      | (Inr magic2, f3) \<Rightarrow>
     (if magic2 \<noteq> waveID then Some (Inr (OPEN_NO_MATCH, Some NotWAVE, s0\<lparr>rw := f3\<rparr>))
      else
     (case find_chunk fmtID f3 of
        None \<Rightarrow> None
      | Some (Inl e, f4) \<Rightarrow>
          Some (Inr (OPEN_MATCH_BUT_FAIL, Some NoFormatChunk, s0\<lparr>rw := f4\<rparr>))
      | Some (Inr chunk_size, f4) \<Rightarrow>
     (let NextChunk :: 32 word = chunk_size + word_of_int (ftell f4) in
     (case read_fmt_chunk (s0\<lparr>rw := f4\<rparr>) of
        (Inl e, s1) \<Rightarrow> Some (Inr (OPEN_MATCH_BUT_FAIL, Some CantReadFormatChunk, s1))
      | (Inr u, s1) \<Rightarrow>
     (let s2 = s1\<lparr>Channels := ucast (wChannels (fmt s1))\<rparr> in
     (if \<not> Channels s2 \<le> 2 then Some (Inl AssertFailed)
      else if wFormatTag (fmt s2) \<noteq> FMT_NORMAL \<and> wFormatTag (fmt s2) \<noteq> FMT_ADPCM
      then Some (Inr (OPEN_NO_MATCH, Some (UnsupportedWAVFormat (wFormatTag (fmt s2))), s2))
      else
     (case (if wBitsPerSample (fmt s2) = 4 \<and> wFormatTag (fmt s2) = FMT_ADPCM
            then Some (s2\<lparr>Conversion := CONV_NONE, BytesPerSample := 2\<rparr>)
            else if wBitsPerSample (fmt s2) = 8
            then Some (s2\<lparr>Conversion := CONV_8BIT_TO_16BIT, BytesPerSample := 1\<rparr>)
            else if wBitsPerSample (fmt s2) = 16
            then Some (s2\<lparr>Conversion := CONV_16LSB_TO_16SYS, BytesPerSample := 2\<rparr>)
            else None) of
        None \<Rightarrow>
          Some (Inr (OPEN_MATCH_BUT_FAIL,
                     Some (UnsupportedSampleSize (wBitsPerSample (fmt s2))), s2))
      | Some s3 \<Rightarrow>
     (let s4 = (if Conversion s3 = CONV_8BIT_TO_16BIT
                then s3\<lparr>Input_Buffer_Ratio := Input_Buffer_Ratio s3 * 2\<rparr> else s3);
          s5 = (if Channels s4 = 1
                then s4\<lparr>Input_Buffer_Ratio := Input_Buffer_Ratio s4 * 2\<rparr> else s4);
          (r, f5) = fseek (rw s5) (sint NextChunk) SEEK_SET
      in
     (case find_chunk dataID f5 of
        None \<Rightarrow> None
      | Some (Inl e, f6) \<Rightarrow>
          Some (Inr (OPEN_MATCH_BUT_FAIL, Some NoDataChunk, s5\<lparr>rw := f6\<rparr>))
      | Some (Inr DataSize, f6) \<Rightarrow>
          Some (Inr (OPEN_OK, None,
                     s5\<lparr>rw := f6,
                        fmt := (fmt s5)\<lparr>data_starting_offset := word_of_int (ftell f6),
                                          adpcm_sample_frame_size :=
                                            BytesPerSample s5 * ucast (Channels s5)\<rparr>\<rparr>)))))))))))))))"

definition fmt_zero :: fmt_t where
  "fmt_zero = \<lparr>wFormatTag = 0, wChannels = 0, dwAvgBytesPerSec = 0, wBlockAlign = 0,
                wBitsPerSample = 0, data_starting_offset = 0, adpcm_sample_frame_size = 0\<rparr>"

text \<open>
  \<open>Open(filename)\<close> on a file that \<open>fopen\<close> can open, given by its bytes. \<open>this\<close> is the
  object as it was. \<open>Open_reset\<close> is the object when \<open>WAV_open_internal\<close> starts: after
  \<open>Close()\<close>, \<open>Input_Buffer_Ratio = 1\<close>, \<open>fopen\<close> and the \<open>memset\<close> of \<open>fmt\<close>. \<open>Close()\<close>
  leaves the object without arrays and without a stream, which after a failed open is
  the result \<open>None\<close> for the reader.
\<close>

definition Open_reset :: "reader \<Rightarrow> byte list \<Rightarrow> reader" where
  "Open_reset this bytes =
     this\<lparr>adpcm := (adpcm this)\<lparr>aCoef := [], blockheaders := []\<rparr>,
          Input_Buffer_Ratio := 1,
          rw := \<lparr>contents = bytes, cursor = 0\<rparr>,
          fmt := fmt_zero\<rparr>"

definition Open ::
  "reader \<Rightarrow> byte list \<Rightarrow> (fault + (OpenResult \<times> errmsg option \<times> reader option)) option" where
  "Open this bytes =
     (case WAV_open_internal (Open_reset this bytes) of
        None \<Rightarrow> None
      | Some (Inl x) \<Rightarrow> Some (Inl x)
      | Some (Inr (rc, e, s1)) \<Rightarrow>
          if rc \<noteq> OPEN_OK then Some (Inr (rc, e, None)) else Some (Inr (rc, e, Some s1)))"

subsection \<open>Test files\<close>

text \<open>
  Files to run the reader on: the four chunk identifiers as bytes, and a canonical
  44-byte header in front of a payload.
\<close>

definition le_bytes32 :: "32 word \<Rightarrow> byte list" where
  "le_bytes32 w = [ucast w, ucast (drop_bit 8 w), ucast (drop_bit 16 w), ucast (drop_bit 24 w)]"

definition RIFF_magic :: "byte list" where "RIFF_magic = [0x52, 0x49, 0x46, 0x46]"
definition WAVE_magic :: "byte list" where "WAVE_magic = [0x57, 0x41, 0x56, 0x45]"
definition fmt_magic :: "byte list" where "fmt_magic = [0x66, 0x6D, 0x74, 0x20]"
definition data_magic :: "byte list" where "data_magic = [0x64, 0x61, 0x74, 0x61]"

definition wav_file ::
  "16 word \<Rightarrow> 16 word \<Rightarrow> 32 word \<Rightarrow> 16 word \<Rightarrow> 16 word \<Rightarrow> byte list \<Rightarrow> byte list" where
  "wav_file tag channels rate align bits payload =
     RIFF_magic @ le_bytes32 (of_nat (36 + length payload)) @ WAVE_magic
     @ fmt_magic @ le_bytes32 16
     @ le_bytes16 tag @ le_bytes16 channels @ le_bytes32 rate @ le_bytes32 (rate * ucast align)
     @ le_bytes16 align @ le_bytes16 bits
     @ data_magic @ le_bytes32 (of_nat (length payload)) @ payload"

text \<open>
  A chunk list with an odd-sized chunk: \<open>LIST\<close> of size 1, its payload byte, the pad
  byte the container format asks for, and a format chunk of size 16.
\<close>

definition odd_chunk_file :: "byte list" where
  "odd_chunk_file =
     [0x4C, 0x49, 0x53, 0x54] @ le_bytes32 1 @ [0xAA] @ [0x00]
     @ fmt_magic @ le_bytes32 16 @ replicate 16 0"

text \<open>A reader object that has not been opened yet.\<close>

definition this0 :: reader where
  "this0 = \<lparr>rw = \<lparr>contents = [], cursor = 0\<rparr>, fmt = fmt_zero, adpcm = adpcm_zero, Channels = 0,
             SampleRate = 0, BytesPerSample = 0, Conversion = CONV_NONE, Input_Buffer_Ratio = 0\<rparr>"

text \<open>
  Three small files and the readers \<open>Open\<close> makes of them: 16-bit stereo PCM, 8-bit mono
  PCM, and mono ADPCM with one coefficient pair and one block of 20 samples.
\<close>

definition pcm_file :: "byte list" where
  "pcm_file = wav_file 1 2 44100 4 16 [1, 2, 3, 4, 5, 6, 7, 8]"

definition pcm_reader :: reader where
  "pcm_reader =
     \<lparr>rw = \<lparr>contents = pcm_file, cursor = 44\<rparr>,
      fmt = \<lparr>wFormatTag = 1, wChannels = 2, dwAvgBytesPerSec = 176400, wBlockAlign = 4,
             wBitsPerSample = 16, data_starting_offset = 44, adpcm_sample_frame_size = 4\<rparr>,
      adpcm = adpcm_zero, Channels = 2, SampleRate = 44100, BytesPerSample = 2,
      Conversion = CONV_16LSB_TO_16SYS, Input_Buffer_Ratio = 1\<rparr>"

definition mono8_file :: "byte list" where
  "mono8_file = wav_file 1 1 8000 1 8 [0, 127, 128, 255]"

definition mono8_reader :: reader where
  "mono8_reader =
     \<lparr>rw = \<lparr>contents = mono8_file, cursor = 44\<rparr>,
      fmt = \<lparr>wFormatTag = 1, wChannels = 1, dwAvgBytesPerSec = 8000, wBlockAlign = 1,
             wBitsPerSample = 8, data_starting_offset = 44, adpcm_sample_frame_size = 1\<rparr>,
      adpcm = adpcm_zero, Channels = 1, SampleRate = 8000, BytesPerSample = 1,
      Conversion = CONV_8BIT_TO_16BIT, Input_Buffer_Ratio = 4\<rparr>"

definition adpcm_block :: "byte list" where
  "adpcm_block = [0] @ le_bytes16 16 @ le_bytes16 100 @ le_bytes16 50 @ replicate 9 0x19"

definition adpcm_file :: "byte list" where
  "adpcm_file =
     RIFF_magic @ le_bytes32 62 @ WAVE_magic
     @ fmt_magic @ le_bytes32 26
     @ le_bytes16 2 @ le_bytes16 1 @ le_bytes32 22050 @ le_bytes32 11025
     @ le_bytes16 16 @ le_bytes16 4
     @ le_bytes16 8 @ le_bytes16 20 @ le_bytes16 1 @ le_bytes16 256 @ le_bytes16 0
     @ data_magic @ le_bytes32 16 @ adpcm_block"

definition adpcm_reader :: reader where
  "adpcm_reader =
     \<lparr>rw = \<lparr>contents = adpcm_file, cursor = 54\<rparr>,
      fmt = \<lparr>wFormatTag = 2, wChannels = 1, dwAvgBytesPerSec = 11025, wBlockAlign = 16,
             wBitsPerSample = 4, data_starting_offset = 54, adpcm_sample_frame_size = 2\<rparr>,
      adpcm = \<lparr>cbSize = 8, wSamplesPerBlock = 20, wNumCoef = 1,
               aCoef = [\<lparr>iCoef1 = 256, iCoef2 = 0\<rparr>], blockheaders = new_headers 1,
               samples_left_in_block = 0, nibble_state = 0, nibble = 0\<rparr>,
      Channels = 1, SampleRate = 22050, BytesPerSample = 2,
      Conversion = CONV_NONE, Input_Buffer_Ratio = 2\<rparr>"

text \<open>Memory that was used before, for a new scratch array.\<close>

definition used_memory :: "nat \<Rightarrow> 16 word" where
  "used_memory i = 0xCDCD"

section \<open>Properties\<close>

subsection \<open>Machine arithmetic\<close>

lemma sint32_of_int: "- (2 ^ 31) \<le> x \<Longrightarrow> x < 2 ^ 31 \<Longrightarrow> sint (word_of_int x :: 32 word) = x"
  by (simp add: sint_sbintrunc' signed_take_bit_int_eq_self)

lemma sint16_of_int: "- (2 ^ 15) \<le> x \<Longrightarrow> x < 2 ^ 15 \<Longrightarrow> sint (word_of_int x :: 16 word) = x"
  by (simp add: sint_sbintrunc' signed_take_bit_int_eq_self)

lemma ucast16_of_int32: "(ucast (word_of_int x :: 32 word) :: 16 word) = word_of_int x"
  by (rule bit_word_eqI) (auto simp add: bit_simps)

lemma sdiv_256_abs: "\<bar>(x::int) sdiv 256\<bar> \<le> \<bar>x\<bar> div 256"
  by (simp add: signed_divide_int_def abs_mult abs_sgn_eq)

lemma sdiv_nonneg: "0 \<le> (x::int) \<Longrightarrow> x sdiv 256 = x div 256"
  by (simp add: signed_divide_int_def sgn_if)

lemma prod16_bounds:
  fixes a b :: "16 word"
  shows "\<bar>sint a * sint b\<bar> \<le> 1073741824"
proof -
  have "\<bar>sint a\<bar> \<le> 2 ^ 15" "\<bar>sint b\<bar> \<le> 2 ^ 15"
    using sint_ge [of a] sint_lt [of a] sint_ge [of b] sint_lt [of b] by auto
  then have "\<bar>sint a\<bar> * \<bar>sint b\<bar> \<le> 2 ^ 15 * 2 ^ 15" by (intro mult_mono) auto
  then show ?thesis by (simp add: abs_mult)
qed

lemma nib_cases: "unat (nib :: byte) < 16 \<Longrightarrow> nib \<in> {0,1,2,3,4,5,6,7,8,9,10,11,12,13,14,15}"
proof -
  assume "unat nib < 16"
  then have "unat nib \<in> set [0..<16]" by simp
  then have "unat nib \<in> {0,1,2,3,4,5,6,7,8,9,10,11,12,13,14,15}"
    by (simp add: upt_rec numeral_eq_Suc)
  then have "of_nat (unat nib) \<in> (of_nat ` {0,1,2,3,4,5,6,7,8,9,10,11,12,13,14,15} :: byte set)"
    by (rule imageI)
  then show ?thesis by simp
qed

lemma nib_high: "unat (nib :: byte) < 16 \<Longrightarrow> (nib AND 0x08 \<noteq> 0) = (8 \<le> unat nib)"
  by (drule nib_cases) auto

lemma table_bounds:
  "unat (nib :: byte) < 16 \<Longrightarrow> 0 \<le> AdaptionTable ! unat nib \<and> AdaptionTable ! unat nib \<le> 768"
  by (drule nib_cases) (auto simp add: AdaptionTable_def)

lemma lPredSamp_of_sint:
  assumes fit: "sint (iSamp0 h) * sint (iCoef1 c) + sint (iSamp1 h) * sint (iCoef2 c) < 2 ^ 31"
  shows "sint (lPredSamp_of c h) =
           (sint (iSamp0 h) * sint (iCoef1 c) + sint (iSamp1 h) * sint (iCoef2 c)) sdiv 256"
    and "\<bar>sint (lPredSamp_of c h)\<bar> \<le> 2 ^ 23"
proof -
  let ?S = "sint (iSamp0 h) * sint (iCoef1 c) + sint (iSamp1 h) * sint (iCoef2 c)"
  have lo: "- 2147483648 \<le> ?S"
    using prod16_bounds [of "iSamp0 h" "iCoef1 c"] prod16_bounds [of "iSamp1 h" "iCoef2 c"]
    by linarith
  have S: "sint (word_of_int ?S :: 32 word) = ?S"
    using lo fit by (intro sint32_of_int) simp_all
  have "\<bar>?S\<bar> \<le> 2147483648" using lo fit by simp
  then have "\<bar>?S\<bar> div 256 \<le> 8388608" by linarith
  then have P: "\<bar>?S sdiv 256\<bar> \<le> 8388608"
    using sdiv_256_abs [of ?S] by linarith
  then have "sint (word_of_int (?S sdiv 256) :: 32 word) = ?S sdiv 256"
    by (intro sint32_of_int) simp_all
  then show "sint (lPredSamp_of c h) = ?S sdiv 256"
    unfolding lPredSamp_of_def FIXED_POINT_COEF_BASE_def S .
  with P show "\<bar>sint (lPredSamp_of c h)\<bar> \<le> 2 ^ 23" by simp
qed

lemma do_adpcm_nibble_eq:
  assumes nib: "unat nib < 16" and p: "\<bar>sint p\<bar> \<le> 2 ^ 23"
  shows "do_adpcm_nibble nib h p =
     Inr (h\<lparr>iDelta := word_of_int (max (uint (iDelta h) * AdaptionTable ! unat nib sdiv 256) 16),
            iSamp1 := iSamp0 h,
            iSamp0 := word_of_int (clamp (sint p + uint (iDelta h) *
                        (if unat nib < 8 then uint nib else uint nib - 16)) (- 32768) 32767)\<rparr>)"
proof -
  let ?d = "uint (iDelta h)"
  let ?s = "(if unat nib < 8 then uint nib else uint nib - 16) :: int"
  have d: "0 \<le> ?d" "?d < 65536" using uint_lt2p [of "iDelta h"] by simp_all
  have un: "uint nib = int (unat nib)" by simp
  have s: "- 8 \<le> ?s" "?s \<le> 7" using nib by (auto simp add: un simp del: of_nat_unat)
  have "\<bar>?d * ?s\<bar> \<le> 65536 * 8"
    unfolding abs_mult using d s by (intro mult_mono) auto
  moreover have "\<bar>sint p\<bar> \<le> 8388608" using p by simp
  ultimately have sum: "- 2147483648 \<le> sint p + ?d * ?s" "sint p + ?d * ?s < 2147483648"
    by linarith+
  have new0: "sint (word_of_int (sint p + ?d * ?s) :: 32 word) = sint p + ?d * ?s"
    using sum by (intro sint32_of_int) simp_all
  let ?c = "clamp (sint p + ?d * ?s) (- 32768) 32767"
  have c: "- 32768 \<le> ?c" "?c \<le> 32767" by (simp_all add: clamp_def)
  have new: "sint (word_of_int ?c :: 32 word) = ?c"
    using c by (intro sint32_of_int) simp_all
  have t: "0 \<le> AdaptionTable ! unat nib" "AdaptionTable ! unat nib \<le> 768"
    using table_bounds [OF nib] by simp_all
  have dt0: "0 \<le> ?d * AdaptionTable ! unat nib" using d t by simp
  have "?d * AdaptionTable ! unat nib \<le> 65536 * 768"
    using d t by (intro mult_mono) auto
  then have q: "0 \<le> ?d * AdaptionTable ! unat nib sdiv 256"
     "?d * AdaptionTable ! unat nib sdiv 256 \<le> 65536 * 3"
    using dt0 by (simp_all add: sdiv_nonneg)
  have d0: "sint (word_of_int (?d * AdaptionTable ! unat nib sdiv 256) :: 32 word)
              = ?d * AdaptionTable ! unat nib sdiv 256"
    using q by (intro sint32_of_int) simp_all
  have mm: "min_audioval = - 32768" "max_audioval = 32767"
    by (simp_all add: min_audioval_def max_audioval_def)
  have not16: "\<not> 16 \<le> unat nib" using nib by simp
  show ?thesis
  proof (cases "unat nib < 8")
    case True
    then have hi: "\<not> nib AND 0x08 \<noteq> 0" using nib_high [OF nib] by simp
    from True have e: "?s = uint nib" by simp
    show ?thesis
      unfolding do_adpcm_nibble_def Let_def FIXED_POINT_ADAPTION_BASE_def
        SMALLEST_ADPCM_DELTA_def mm e
      using new0 [unfolded e]
      by (simp only: not16 hi if_False if_True d0 ucast16_of_int32 simp_thms)
  next
    case False
    then have hi: "nib AND 0x08 \<noteq> 0" using nib_high [OF nib] by simp
    from False have e: "?s = uint nib - 0x10" by simp
    show ?thesis
      unfolding do_adpcm_nibble_def Let_def FIXED_POINT_ADAPTION_BASE_def
        SMALLEST_ADPCM_DELTA_def mm e
      using new0 [unfolded e]
      by (simp only: not16 hi if_False if_True d0 ucast16_of_int32 simp_thms)
  qed
qed


text \<open>
  Claim C2, as amended. For every channel state whose prediction sum
  \<open>sample0 * coef1 + sample1 * coef2\<close> fits a 32-bit \<open>int\<close> (every state except the one
  where all four values are -32768) and every nibble \<open>n < 16\<close>, one decode step stores
  \<open>clamp(pred + delta * s(n), -32768, 32767)\<close> as the newest sample, where \<open>pred\<close> is the
  sum divided by 256 with truncation towards zero and \<open>s(n)\<close> is \<open>n\<close> below 8 and
  \<open>n - 16\<close> from 8 on; it moves the old newest sample to the previous one, keeps the
  predictor index, and stores \<open>max(delta * AdaptionTable[n] / 256, 16)\<close> cut to the
  16-bit field \<open>iDelta\<close>, that is, modulo 65536.
\<close>

theorem adpcm_nibble_step:
  assumes nib: "unat nib < 16"
    and fit: "sint (iSamp0 h) * sint (iCoef1 c) + sint (iSamp1 h) * sint (iCoef2 c) < 2 ^ 31"
  shows "\<exists>h'. do_adpcm_nibble nib h (lPredSamp_of c h) = Inr h' \<and>
           sint (iSamp0 h') =
             clamp ((sint (iSamp0 h) * sint (iCoef1 c) + sint (iSamp1 h) * sint (iCoef2 c)) sdiv 256
                     + uint (iDelta h) * (if unat nib < 8 then uint nib else uint nib - 16))
                   (- 32768) 32767 \<and>
           uint (iDelta h') =
             max (uint (iDelta h) * AdaptionTable ! unat nib sdiv 256) SMALLEST_ADPCM_DELTA
               mod 65536 \<and>
           iSamp1 h' = iSamp0 h \<and> bPredictor h' = bPredictor h"
proof -
  let ?P = "(sint (iSamp0 h) * sint (iCoef1 c) + sint (iSamp1 h) * sint (iCoef2 c)) sdiv 256"
  let ?c = "clamp (?P + uint (iDelta h) * (if unat nib < 8 then uint nib else uint nib - 16))
              (- 32768) 32767"
  have p: "sint (lPredSamp_of c h) = ?P" "\<bar>sint (lPredSamp_of c h)\<bar> \<le> 2 ^ 23"
    using lPredSamp_of_sint [OF fit] by simp_all
  have c: "- (2 ^ 15) \<le> ?c" "?c < 2 ^ 15" by (simp_all add: clamp_def)
  have "sint (word_of_int ?c :: 16 word) = ?c" using c by (rule sint16_of_int)
  then show ?thesis
    unfolding do_adpcm_nibble_eq [OF nib p(2)] p(1) SMALLEST_ADPCM_DELTA_def
    by (simp add: uint_word_of_int)
qed

theorem adpcm_nibble_step_witness:
  "unat (9 :: byte) < 16 \<and>
   do_adpcm_nibble 9 \<lparr>bPredictor = 0, iDelta = 16, iSamp0 = 100, iSamp1 = 50\<rparr>
      (lPredSamp_of \<lparr>iCoef1 = 512, iCoef2 = - 256\<rparr>
                    \<lparr>bPredictor = 0, iDelta = 16, iSamp0 = 100, iSamp1 = 50\<rparr>)
     = Inr \<lparr>bPredictor = 0, iDelta = 38, iSamp0 = 38, iSamp1 = 100\<rparr>"
  using adpcm_nibble_step [of 9 "\<lparr>bPredictor = 0, iDelta = 16, iSamp0 = 100, iSamp1 = 50\<rparr>"
                              "\<lparr>iCoef1 = 512, iCoef2 = - 256\<rparr>"]
  by (simp add: do_adpcm_nibble_def lPredSamp_of_def AdaptionTable_def clamp_def
        signed_divide_int_def min_audioval_def max_audioval_def FIXED_POINT_COEF_BASE_def
        FIXED_POINT_ADAPTION_BASE_def SMALLEST_ADPCM_DELTA_def)

text \<open>
  Claim C2 as stated fails on the delta: with delta 30000 and nibble 8 the scaled value
  is 90000, which the 16-bit field stores as 24464.
\<close>

theorem adpcm_delta_counterexample:
  "do_adpcm_nibble 8 \<lparr>bPredictor = 0, iDelta = 30000, iSamp0 = 0, iSamp1 = 0\<rparr>
      (lPredSamp_of \<lparr>iCoef1 = 256, iCoef2 = 0\<rparr>
                    \<lparr>bPredictor = 0, iDelta = 30000, iSamp0 = 0, iSamp1 = 0\<rparr>)
     = Inr \<lparr>bPredictor = 0, iDelta = 24464, iSamp0 = - 32768, iSamp1 = 0\<rparr>
   \<and> max (30000 * AdaptionTable ! 8 sdiv 256) SMALLEST_ADPCM_DELTA = 90000
   \<and> uint (24464 :: 16 word) \<noteq> 90000"
  by (simp add: do_adpcm_nibble_def lPredSamp_of_def AdaptionTable_def clamp_def
        signed_divide_int_def min_audioval_def max_audioval_def FIXED_POINT_COEF_BASE_def
        FIXED_POINT_ADAPTION_BASE_def SMALLEST_ADPCM_DELTA_def)

subsection \<open>Millisecond and byte positions\<close>




















subsection \<open>Opening\<close>

lemma le_bytes32_le_word: "le_bytes32 (le_word [a, b, c, d]) = [a, b, c, d]"
  apply (simp add: le_bytes32_def)
  apply (intro conjI bit_word_eqI)
     apply (auto simp add: bit_simps dest: bit_imp_le_length)
  done

lemma le_word4: "(le_word [a, b, c, d] :: 32 word) = w \<Longrightarrow> [a, b, c, d] = le_bytes32 w"
  using le_bytes32_le_word [of a b c d] by simp

lemma read_le32_cases:
  "read_le32 f =
     (if cursor f + 4 \<le> length (contents f)
      then (Inr (le_word (take 4 (drop (cursor f) (contents f)))), f\<lparr>cursor := cursor f + 4\<rparr>)
      else (Inl EndOfFile, f\<lparr>cursor := max (cursor f) (length (contents f))\<rparr>))"
  by (auto simp add: read_le32_def fread_def Let_def min_def max_def)

lemma length4: "length xs = 4 \<Longrightarrow> \<exists>a b c d. xs = [a, b, c, d]"
  by (auto simp add: length_Suc_conv numeral_eq_Suc)

lemma le_word_magic:
  assumes "length xs = 4" and "(le_word xs :: 32 word) = w"
  shows "xs = le_bytes32 w"
  using length4 [OF assms(1)] assms(2) le_word4 by blast

lemma riff_bytes: "le_bytes32 riffID = RIFF_magic" "le_bytes32 waveID = WAVE_magic"
  by (simp_all add: le_bytes32_def riffID_def waveID_def RIFF_magic_def WAVE_magic_def)

lemma riff_word: "(le_word RIFF_magic :: 32 word) = riffID" "(le_word WAVE_magic :: 32 word) = waveID"
  by (simp_all add: riffID_def waveID_def RIFF_magic_def WAVE_magic_def)

lemma WAV_open_internal_wrong_magic:
  assumes "take 4 (contents (rw s0)) \<noteq> RIFF_magic \<or> take 4 (drop 8 (contents (rw s0))) \<noteq> WAVE_magic"
    and "cursor (rw s0) = 0"
  shows "\<exists>e s1. WAV_open_internal s0 = Some (Inr (OPEN_NO_MATCH, e, s1))"
proof (cases "take 4 (contents (rw s0)) = RIFF_magic")
  case False
  have "4 \<le> length (contents (rw s0)) \<Longrightarrow> le_word (take 4 (contents (rw s0))) \<noteq> riffID"
  proof
    assume l: "4 \<le> length (contents (rw s0))" and "le_word (take 4 (contents (rw s0))) = riffID"
    then have "take 4 (contents (rw s0)) = le_bytes32 riffID"
      by (intro le_word_magic) simp_all
    with False show False by (simp add: riff_bytes)
  qed
  then show ?thesis
    using assms(2) by (simp add: WAV_open_internal_def read_le32_cases)
next
  case True
  then have "length (take 4 (contents (rw s0))) = 4" by (simp add: RIFF_magic_def)
  then have l4: "4 \<le> length (contents (rw s0))" by simp
  from True assms(1) have W: "take 4 (drop 8 (contents (rw s0))) \<noteq> WAVE_magic" by simp
  have "12 \<le> length (contents (rw s0)) \<Longrightarrow> le_word (take 4 (drop 8 (contents (rw s0)))) \<noteq> waveID"
  proof
    assume l: "12 \<le> length (contents (rw s0))"
      and "le_word (take 4 (drop 8 (contents (rw s0)))) = waveID"
    then have "take 4 (drop 8 (contents (rw s0))) = le_bytes32 waveID"
      by (intro le_word_magic) simp_all
    with W show False by (simp add: riff_bytes)
  qed
  then show ?thesis
    using assms(2) True l4
    by (auto simp add: WAV_open_internal_def read_le32_cases riff_word Let_def max_def)
qed


lemma magic_reads:
  assumes "take 4 bytes = RIFF_magic" and "take 4 (drop 8 bytes) = WAVE_magic"
  shows "read_le32 \<lparr>contents = bytes, cursor = 0\<rparr> = (Inr riffID, \<lparr>contents = bytes, cursor = 4\<rparr>)"
    and "\<exists>x. read_le32 \<lparr>contents = bytes, cursor = 4\<rparr> = (x, \<lparr>contents = bytes, cursor = 8\<rparr>)"
    and "read_le32 \<lparr>contents = bytes, cursor = 8\<rparr> = (Inr waveID, \<lparr>contents = bytes, cursor = 12\<rparr>)"
proof -
  have "length (take 4 (drop 8 bytes)) = 4" using assms(2) by (simp add: WAVE_magic_def)
  then have l: "12 \<le> length bytes" by simp
  show "read_le32 \<lparr>contents = bytes, cursor = 0\<rparr> = (Inr riffID, \<lparr>contents = bytes, cursor = 4\<rparr>)"
    using l assms(1) by (simp add: read_le32_cases riff_word)
  show "\<exists>x. read_le32 \<lparr>contents = bytes, cursor = 4\<rparr> = (x, \<lparr>contents = bytes, cursor = 8\<rparr>)"
    using l by (simp add: read_le32_cases)
  show "read_le32 \<lparr>contents = bytes, cursor = 8\<rparr> = (Inr waveID, \<lparr>contents = bytes, cursor = 12\<rparr>)"
    using l assms(2) by (simp add: read_le32_cases riff_word)
qed

lemma WAV_open_internal_parsed:
  assumes m: "take 4 bytes = RIFF_magic" "take 4 (drop 8 bytes) = WAVE_magic"
    and fc: "find_chunk fmtID \<lparr>contents = bytes, cursor = 12\<rparr> = Some (Inr sz, f)"
    and rf: "read_fmt_chunk ((Open_reset this bytes)\<lparr>rw := f\<rparr>) = (Inr (), s1)"
  shows "\<not> (ucast (wChannels (fmt s1)) :: byte) \<le> 2 \<Longrightarrow>
           WAV_open_internal (Open_reset this bytes) = Some (Inl AssertFailed)"
    and "(ucast (wChannels (fmt s1)) :: byte) \<le> 2 \<Longrightarrow>
         wFormatTag (fmt s1) \<noteq> FMT_NORMAL \<Longrightarrow> wFormatTag (fmt s1) \<noteq> FMT_ADPCM \<Longrightarrow>
           WAV_open_internal (Open_reset this bytes) =
             Some (Inr (OPEN_NO_MATCH, Some (UnsupportedWAVFormat (wFormatTag (fmt s1))),
                        s1\<lparr>Channels := ucast (wChannels (fmt s1))\<rparr>))"
    and "(ucast (wChannels (fmt s1)) :: byte) \<le> 2 \<Longrightarrow>
         wFormatTag (fmt s1) = FMT_NORMAL \<or> wFormatTag (fmt s1) = FMT_ADPCM \<Longrightarrow>
         wBitsPerSample (fmt s1) = 24 \<Longrightarrow>
           WAV_open_internal (Open_reset this bytes) =
             Some (Inr (OPEN_MATCH_BUT_FAIL, Some (UnsupportedSampleSize 24),
                        s1\<lparr>Channels := ucast (wChannels (fmt s1))\<rparr>))"
proof -
  obtain x where x: "read_le32 \<lparr>contents = bytes, cursor = 4\<rparr> = (x, \<lparr>contents = bytes, cursor = 8\<rparr>)"
    using magic_reads(2) [OF m] by blast
  have r: "rw (Open_reset this bytes) = \<lparr>contents = bytes, cursor = 0\<rparr>"
    by (simp add: Open_reset_def)
  note pre = r magic_reads(1) [OF m] x magic_reads(3) [OF m] fc rf
  show "\<not> (ucast (wChannels (fmt s1)) :: byte) \<le> 2 \<Longrightarrow>
           WAV_open_internal (Open_reset this bytes) = Some (Inl AssertFailed)"
    by (simp add: WAV_open_internal_def pre Let_def)
  show "(ucast (wChannels (fmt s1)) :: byte) \<le> 2 \<Longrightarrow>
         wFormatTag (fmt s1) \<noteq> FMT_NORMAL \<Longrightarrow> wFormatTag (fmt s1) \<noteq> FMT_ADPCM \<Longrightarrow>
           WAV_open_internal (Open_reset this bytes) =
             Some (Inr (OPEN_NO_MATCH, Some (UnsupportedWAVFormat (wFormatTag (fmt s1))),
                        s1\<lparr>Channels := ucast (wChannels (fmt s1))\<rparr>))"
    by (simp add: WAV_open_internal_def pre Let_def)
  show "(ucast (wChannels (fmt s1)) :: byte) \<le> 2 \<Longrightarrow>
         wFormatTag (fmt s1) = FMT_NORMAL \<or> wFormatTag (fmt s1) = FMT_ADPCM \<Longrightarrow>
         wBitsPerSample (fmt s1) = 24 \<Longrightarrow>
           WAV_open_internal (Open_reset this bytes) =
             Some (Inr (OPEN_MATCH_BUT_FAIL, Some (UnsupportedSampleSize 24),
                        s1\<lparr>Channels := ucast (wChannels (fmt s1))\<rparr>))"
    by (auto simp add: WAV_open_internal_def pre Let_def FMT_NORMAL_def FMT_ADPCM_def)
qed

text \<open>
  Claim C9, as amended. A file that does not begin with the RIFF magic, or whose bytes
  8 to 11 are not the WAVE form type, is answered with \<open>OPEN_NO_MATCH\<close> (so never with
  \<open>OPEN_MATCH_BUT_FAIL\<close>). A RIFF/WAVE file whose format chunk is found and read, with a
  supported compression tag, a channel count whose low byte is at most 2 and 24 bits
  per sample, is answered with \<open>OPEN_MATCH_BUT_FAIL\<close>.
\<close>

theorem open_match_results:
  "(take 4 bytes \<noteq> RIFF_magic \<or> take 4 (drop 8 bytes) \<noteq> WAVE_magic \<longrightarrow>
      (\<exists>e. Open this bytes = Some (Inr (OPEN_NO_MATCH, e, None))))
   \<and> (take 4 bytes = RIFF_magic \<and> take 4 (drop 8 bytes) = WAVE_magic
      \<and> find_chunk fmtID \<lparr>contents = bytes, cursor = 12\<rparr> = Some (Inr sz, f)
      \<and> read_fmt_chunk ((Open_reset this bytes)\<lparr>rw := f\<rparr>) = (Inr (), s1)
      \<and> (wFormatTag (fmt s1) = FMT_NORMAL \<or> wFormatTag (fmt s1) = FMT_ADPCM)
      \<and> (ucast (wChannels (fmt s1)) :: byte) \<le> 2
      \<and> wBitsPerSample (fmt s1) = 24 \<longrightarrow>
      Open this bytes = Some (Inr (OPEN_MATCH_BUT_FAIL, Some (UnsupportedSampleSize 24), None)))"
proof (intro conjI impI)
  assume "take 4 bytes \<noteq> RIFF_magic \<or> take 4 (drop 8 bytes) \<noteq> WAVE_magic"
  then obtain e s1 where "WAV_open_internal (Open_reset this bytes) = Some (Inr (OPEN_NO_MATCH, e, s1))"
    using WAV_open_internal_wrong_magic [of "Open_reset this bytes"]
    by (auto simp add: Open_reset_def)
  then show "\<exists>e. Open this bytes = Some (Inr (OPEN_NO_MATCH, e, None))"
    by (simp add: Open_def)
next
  assume a: "take 4 bytes = RIFF_magic \<and> take 4 (drop 8 bytes) = WAVE_magic
      \<and> find_chunk fmtID \<lparr>contents = bytes, cursor = 12\<rparr> = Some (Inr sz, f)
      \<and> read_fmt_chunk ((Open_reset this bytes)\<lparr>rw := f\<rparr>) = (Inr (), s1)
      \<and> (wFormatTag (fmt s1) = FMT_NORMAL \<or> wFormatTag (fmt s1) = FMT_ADPCM)
      \<and> (ucast (wChannels (fmt s1)) :: byte) \<le> 2
      \<and> wBitsPerSample (fmt s1) = 24"
  then have "WAV_open_internal (Open_reset this bytes) =
             Some (Inr (OPEN_MATCH_BUT_FAIL, Some (UnsupportedSampleSize 24),
                        s1\<lparr>Channels := ucast (wChannels (fmt s1))\<rparr>))"
    by (intro WAV_open_internal_parsed(3) [of bytes sz f this s1]) simp_all
  then show "Open this bytes = Some (Inr (OPEN_MATCH_BUT_FAIL, Some (UnsupportedSampleSize 24), None))"
    by (simp add: Open_def)
qed

text \<open>
  Claim C3, as amended. A RIFF/WAVE file whose format chunk is found and read, with a
  channel count whose low byte is at most 2 and a compression tag that is neither
  linear PCM nor ADPCM, is answered with the soft \<open>OPEN_NO_MATCH\<close>, the same outcome as
  for a file that is not RIFF/WAVE at all, so that another decoder may try it.
\<close>

theorem open_unsupported_tag:
  assumes "take 4 bytes = RIFF_magic" and "take 4 (drop 8 bytes) = WAVE_magic"
    and "find_chunk fmtID \<lparr>contents = bytes, cursor = 12\<rparr> = Some (Inr sz, f)"
    and "read_fmt_chunk ((Open_reset this bytes)\<lparr>rw := f\<rparr>) = (Inr (), s1)"
    and "(ucast (wChannels (fmt s1)) :: byte) \<le> 2"
    and "wFormatTag (fmt s1) \<noteq> FMT_NORMAL" and "wFormatTag (fmt s1) \<noteq> FMT_ADPCM"
  shows "Open this bytes =
           Some (Inr (OPEN_NO_MATCH, Some (UnsupportedWAVFormat (wFormatTag (fmt s1))), None))"
  using WAV_open_internal_parsed(2) [OF assms] by (simp add: Open_def)

lemmas file_defs = wav_file_def RIFF_magic_def WAVE_magic_def fmt_magic_def data_magic_def
  le_bytes32_def le_bytes16_def

text \<open>
  Claim C9 as stated fails on a channel count above 2: \<open>ASSERT( Channels <= 2 )\<close> stops
  the program before the bit depth is looked at. The file is RIFF/WAVE with tag 1
  (PCM), 3 channels and 24 bits per sample.
\<close>

theorem open_three_channels_counterexample:
  "Open this0 (wav_file 1 3 44100 6 24 []) = Some (Inl AssertFailed)"
  by code_simp

text \<open>
  Claim C3 as stated fails: a RIFF/WAVE file with compression tag \<open>0x55\<close> (MP3 in a WAV)
  is answered with \<open>OPEN_NO_MATCH\<close>, not with \<open>OPEN_MATCH_BUT_FAIL\<close>.
\<close>

theorem open_unsupported_tag_counterexample:
  "Open this0 (wav_file 0x55 2 44100 4 16 []) =
     Some (Inr (OPEN_NO_MATCH, Some (UnsupportedWAVFormat 0x55), None))"
  by code_simp


theorem open_unsupported_tag_witness:
  "take 4 (wav_file 0x11 1 22050 2 16 []) = RIFF_magic
   \<and> take 4 (drop 8 (wav_file 0x11 1 22050 2 16 [])) = WAVE_magic
   \<and> find_chunk fmtID \<lparr>contents = wav_file 0x11 1 22050 2 16 [], cursor = 12\<rparr>
       = Some (Inr 16, \<lparr>contents = wav_file 0x11 1 22050 2 16 [], cursor = 20\<rparr>)
   \<and> Open this0 (wav_file 0x11 1 22050 2 16 [])
       = Some (Inr (OPEN_NO_MATCH, Some (UnsupportedWAVFormat 0x11), None))"
proof -
  let ?B = "wav_file 0x11 1 22050 2 16 []"
  let ?f = "\<lparr>contents = ?B, cursor = 20\<rparr>"
  let ?r = "read_fmt_chunk ((Open_reset this0 ?B)\<lparr>rw := ?f\<rparr>)"
  have h1: "take 4 ?B = RIFF_magic" by (simp add: file_defs)
  have h2: "take 4 (drop 8 ?B) = WAVE_magic" by (simp add: file_defs)
  have h3: "find_chunk fmtID \<lparr>contents = ?B, cursor = 12\<rparr> = Some (Inr 16, ?f)" by code_simp
  have "fst ?r = Inr ()" by code_simp
  then have h4: "?r = (Inr (), snd ?r)" by (metis prod.collapse)
  have h5: "(ucast (wChannels (fmt (snd ?r))) :: byte) \<le> 2" by code_simp
  have t: "wFormatTag (fmt (snd ?r)) = 0x11" by code_simp
  have h6: "wFormatTag (fmt (snd ?r)) \<noteq> FMT_NORMAL" by (simp add: t FMT_NORMAL_def)
  have h7: "wFormatTag (fmt (snd ?r)) \<noteq> FMT_ADPCM" by (simp add: t FMT_ADPCM_def)
  show ?thesis
    using open_unsupported_tag [OF h1 h2 h3 h4 h5 h6 h7] h1 h2 h3 by (simp add: t)
qed

theorem open_match_results_witness:
  "(\<exists>e. Open this0 [0x4F, 0x67, 0x67, 0x53] = Some (Inr (OPEN_NO_MATCH, e, None)))
   \<and> take 4 (wav_file 1 2 44100 6 24 []) = RIFF_magic
   \<and> take 4 (drop 8 (wav_file 1 2 44100 6 24 [])) = WAVE_magic
   \<and> find_chunk fmtID \<lparr>contents = wav_file 1 2 44100 6 24 [], cursor = 12\<rparr>
       = Some (Inr 16, \<lparr>contents = wav_file 1 2 44100 6 24 [], cursor = 20\<rparr>)
   \<and> Open this0 (wav_file 1 2 44100 6 24 [])
       = Some (Inr (OPEN_MATCH_BUT_FAIL, Some (UnsupportedSampleSize 24), None))"
proof -
  let ?B = "wav_file 1 2 44100 6 24 []"
  let ?f = "\<lparr>contents = ?B, cursor = 20\<rparr>"
  let ?r = "read_fmt_chunk ((Open_reset this0 ?B)\<lparr>rw := ?f\<rparr>)"
  have g: "take 4 [0x4F, 0x67, 0x67, 0x53 :: byte] \<noteq> RIFF_magic" by (simp add: RIFF_magic_def)
  have h1: "take 4 ?B = RIFF_magic" by (simp add: file_defs)
  have h2: "take 4 (drop 8 ?B) = WAVE_magic" by (simp add: file_defs)
  have h3: "find_chunk fmtID \<lparr>contents = ?B, cursor = 12\<rparr> = Some (Inr 16, ?f)" by code_simp
  have "fst ?r = Inr ()" by code_simp
  then have h4: "?r = (Inr (), snd ?r)" by (metis prod.collapse)
  have h5: "(ucast (wChannels (fmt (snd ?r))) :: byte) \<le> 2" by code_simp
  have h6: "wFormatTag (fmt (snd ?r)) = FMT_NORMAL" by code_simp
  have h7: "wBitsPerSample (fmt (snd ?r)) = 24" by code_simp
  have a: "\<exists>e. Open this0 [0x4F, 0x67, 0x67, 0x53] = Some (Inr (OPEN_NO_MATCH, e, None))"
    using open_match_results [of "[0x4F, 0x67, 0x67, 0x53]" this0] g by blast
  have b: "Open this0 ?B = Some (Inr (OPEN_MATCH_BUT_FAIL, Some (UnsupportedSampleSize 24), None))"
    using open_match_results [of ?B this0 16 ?f "snd ?r"] h1 h2 h3 h4 h5 h6 h7 by blast
  show ?thesis using a b h1 h2 h3 by blast
qed

subsection \<open>The chunk scanner\<close>

text \<open>
  Claim C4, as amended. When the header under the cursor is complete and its
  identifier is not the one looked for, the scanner fails without moving further if
  the declared size is negative, and otherwise goes on exactly as a scan started at
  cursor + 8 + declared size: the next header is read right after the declared size,
  with no pad byte after an odd size.
\<close>

theorem find_chunk_skips_declared_size:
  fixes sz :: "32 word"
  assumes hdr: "cursor f + 8 \<le> length (contents f)"
    and other: "le_word (take 4 (drop (cursor f) (contents f))) \<noteq> chunk_id"
    and sz: "sz = le_word (take 4 (drop (cursor f + 4) (contents f)))"
  shows "(sz <s 0 \<longrightarrow> find_chunk chunk_id f = Some (Inl None, f\<lparr>cursor := cursor f + 8\<rparr>))
       \<and> (\<not> sz <s 0 \<and> cursor f + 8 + unat sz < 2 ^ 32 \<longrightarrow>
            find_chunk chunk_id f = find_chunk chunk_id (f\<lparr>cursor := cursor f + 8 + unat sz\<rparr>))"
proof (intro conjI impI)
  have r1: "read_le32 f = (Inr (le_word (take 4 (drop (cursor f) (contents f)))),
                           f\<lparr>cursor := cursor f + 4\<rparr>)"
    using hdr by (simp add: read_le32_cases)
  have r2: "read_le32 (f\<lparr>cursor := cursor f + 4\<rparr>) = (Inr sz, f\<lparr>cursor := cursor f + 8\<rparr>)"
    using hdr by (simp add: read_le32_cases sz)
  {
    assume "sz <s 0"
    then show "find_chunk chunk_id f = Some (Inl None, f\<lparr>cursor := cursor f + 8\<rparr>)"
      using other
      by (subst find_chunk_def, subst find_chunk_loop.simps) (simp add: r1 r2)
  }
  {
    assume a: "\<not> sz <s 0 \<and> cursor f + 8 + unat sz < 2 ^ 32"
    let ?p = "(word_of_int (ftell f) + 8 + sz) :: 32 word"
    have "?p = of_nat (cursor f + 8 + unat sz)" by (simp add: ftell_def)
    then have u: "uint ?p = int (cursor f + 8 + unat sz)"
      using a by (simp add: uint_word_of_int take_bit_nat_eq_self unsigned_of_nat del: of_nat_add)
    from u have u2: "unat ?p = cursor f + 8 + unat sz"
      by (metis nat_int nat_uint_eq)
    have p: "?p = word_of_int (ftell (f\<lparr>cursor := cursor f + 8 + unat sz\<rparr>))"
      by (simp add: ftell_def)
    have "find_chunk chunk_id f =
            find_chunk_loop chunk_id ?p (f\<lparr>cursor := cursor f + 8 + unat sz\<rparr>)"
      using other a
      by (subst find_chunk_def, subst find_chunk_loop.simps)
         (simp add: r1 r2 Let_def fseek_def u u2 del: of_nat_add)
    then show "find_chunk chunk_id f = find_chunk chunk_id (f\<lparr>cursor := cursor f + 8 + unat sz\<rparr>)"
      unfolding find_chunk_def [of chunk_id "f\<lparr>cursor := cursor f + 8 + unat sz\<rparr>"] p [symmetric] .
  }
qed

text \<open>
  Claim C4 as stated fails on an odd size. In \<open>odd_chunk_file\<close> a chunk of size 1 is
  followed by its pad byte and then by the format chunk, at offset 10. The scanner
  reads the next header at offset 9 and does not find the format chunk; a scan from
  the padded offset 10 finds it.
\<close>

theorem find_chunk_no_padding_counterexample:
  "find_chunk fmtID \<lparr>contents = odd_chunk_file, cursor = 0\<rparr>
     = Some (Inl (Some EndOfFile), \<lparr>contents = odd_chunk_file, cursor = 4145\<rparr>)
   \<and> find_chunk fmtID \<lparr>contents = odd_chunk_file, cursor = 10\<rparr>
     = Some (Inr 16, \<lparr>contents = odd_chunk_file, cursor = 18\<rparr>)"
  by code_simp

theorem find_chunk_skips_declared_size_witness:
  "find_chunk fmtID \<lparr>contents = odd_chunk_file, cursor = 0\<rparr>
     = find_chunk fmtID \<lparr>contents = odd_chunk_file, cursor = 9\<rparr>
   \<and> find_chunk fmtID \<lparr>contents = [1, 2, 3, 4, 0, 0, 0, 0x80, 9], cursor = 0\<rparr>
     = Some (Inl None, \<lparr>contents = [1, 2, 3, 4, 0, 0, 0, 0x80, 9], cursor = 8\<rparr>)"
proof -
  let ?f = "\<lparr>contents = odd_chunk_file, cursor = 0\<rparr>"
  let ?g = "\<lparr>contents = [1, 2, 3, 4, 0, 0, 0, 0x80, 9 :: byte], cursor = 0\<rparr>"
  have a1: "cursor ?f + 8 \<le> length (contents ?f)" by (simp add: odd_chunk_file_def file_defs)
  have a2: "(le_word (take 4 (drop (cursor ?f) (contents ?f))) :: 32 word) \<noteq> fmtID"
    by (simp add: odd_chunk_file_def file_defs fmtID_def)
  have a3: "(1 :: 32 word) = le_word (take 4 (drop (cursor ?f + 4) (contents ?f)))"
    by (simp add: odd_chunk_file_def file_defs)
  have b1: "cursor ?g + 8 \<le> length (contents ?g)" by simp
  have b2: "(le_word (take 4 (drop (cursor ?g) (contents ?g))) :: 32 word) \<noteq> fmtID"
    by (simp add: fmtID_def)
  have b3: "(0x80000000 :: 32 word) = le_word (take 4 (drop (cursor ?g + 4) (contents ?g)))"
    by simp
  have b4: "(0x80000000 :: 32 word) <s 0" by (simp add: word_sless_alt)
  have a4: "\<not> (1 :: 32 word) <s 0 \<and> cursor ?f + 8 + unat (1 :: 32 word) < 2 ^ 32"
    by (simp add: word_sless_alt)
  show ?thesis
    using find_chunk_skips_declared_size [OF a1 a2 a3] a4
          find_chunk_skips_declared_size [OF b1 b2 b3] b4
    by simp
qed

subsection \<open>The length query\<close>

lemma fread_contents: "contents (snd (fread n f)) = contents f"
  by (simp add: fread_def Let_def)


lemma fseek_contents: "contents (snd (fseek f off w)) = contents f"
  by (simp add: fseek_def Let_def)






lemma sint_cursor: "n < 2 ^ 31 \<Longrightarrow> sint (of_nat n :: 32 word) = int n"
  using sint32_of_int [of "int n"] by simp








lemma pcm_reader_opened: "Open this0 pcm_file = Some (Inr (OPEN_OK, None, Some pcm_reader))"
  by code_simp


lemma adpcm_reader_opened: "Open this0 adpcm_file = Some (Inr (OPEN_OK, None, Some adpcm_reader))"
  by code_simp







subsection \<open>Seeking\<close>

text \<open>
  Claim C1 does not hold of the code. Both seek functions compare the value \<open>fseek\<close>
  returns, which is 0 when the seek succeeds, with the offset that was asked for. On an
  uncompressed stream \<open>SetPosition\<close> therefore answers -1 whenever the target offset is
  neither 0 nor -1, and on an ADPCM stream it answers 0, with an error message set and
  before any block header is read, whenever the target offset is not 0. The data
  region of an opened file never starts at offset 0.
\<close>

theorem SetPosition_reports_failure:
  "(wFormatTag (fmt s) = FMT_NORMAL
      \<and> data_starting_offset (fmt s)
            + ConvertMsToBytePos F s (BytesPerSample s) (Channels s) ms \<noteq> 0
      \<and> data_starting_offset (fmt s)
            + ConvertMsToBytePos F s (BytesPerSample s) (Channels s) ms \<noteq> - 1
      \<longrightarrow> (\<exists>s'. SetPosition F ms s = Some (Inr (- 1, None, s'))))
   \<and> (wFormatTag (fmt s) = FMT_ADPCM
      \<and> int_div (ConvertMsToBytePos F s (BytesPerSample s) (Channels s) ms)
                 (ucast (wSamplesPerBlock (adpcm s)) * adpcm_sample_frame_size (fmt s)) = Inr q
      \<and> q * ucast (wBlockAlign (fmt s)) + data_starting_offset (fmt s) \<noteq> 0
      \<longrightarrow> (\<exists>e s'. SetPosition F ms s = Some (Inr (0, Some e, s'))))"
proof (intro conjI impI)
  let ?pos = "data_starting_offset (fmt s)
                + ConvertMsToBytePos F s (BytesPerSample s) (Channels s) ms"
  assume a: "wFormatTag (fmt s) = FMT_NORMAL \<and> ?pos \<noteq> 0 \<and> ?pos \<noteq> - 1"
  then show "\<exists>s'. SetPosition F ms s = Some (Inr (- 1, None, s'))"
    by (auto simp add: SetPosition_def seek_sample_fmt_normal_def fseek_def Let_def)
next
  let ?off = "ConvertMsToBytePos F s (BytesPerSample s) (Channels s) ms"
  let ?bpb = "ucast (wSamplesPerBlock (adpcm s)) * adpcm_sample_frame_size (fmt s)"
  let ?pos = "q * ucast (wBlockAlign (fmt s)) + data_starting_offset (fmt s)"
  assume a: "wFormatTag (fmt s) = FMT_ADPCM \<and> int_div ?off ?bpb = Inr q \<and> ?pos \<noteq> 0"
  then have n: "wFormatTag (fmt s) \<noteq> FMT_NORMAL" by (simp add: FMT_ADPCM_def FMT_NORMAL_def)
  from a n show "\<exists>e s'. SetPosition F ms s = Some (Inr (0, Some e, s'))"
    by (auto simp add: SetPosition_def seek_sample_fmt_adpcm_def fseek_def Let_def)
qed

theorem SetPosition_reports_failure_witness:
  "(\<exists>s'. SetPosition float_frames_of_ms 0 pcm_reader = Some (Inr (- 1, None, s')))
   \<and> (\<exists>e s'. SetPosition float_frames_of_ms 0 adpcm_reader = Some (Inr (0, Some e, s')))"
proof -
  have p: "wFormatTag (fmt pcm_reader) = FMT_NORMAL" by (simp add: pcm_reader_def FMT_NORMAL_def)
  have p1: "data_starting_offset (fmt pcm_reader)
            + ConvertMsToBytePos float_frames_of_ms pcm_reader (BytesPerSample pcm_reader)
                (Channels pcm_reader) 0 = 44"
    by code_simp
  have a: "wFormatTag (fmt adpcm_reader) = FMT_ADPCM" by (simp add: adpcm_reader_def FMT_ADPCM_def)
  have a1: "int_div (ConvertMsToBytePos float_frames_of_ms adpcm_reader (BytesPerSample adpcm_reader)
                       (Channels adpcm_reader) 0)
                 (ucast (wSamplesPerBlock (adpcm adpcm_reader))
                    * adpcm_sample_frame_size (fmt adpcm_reader)) = Inr 0"
    by code_simp
  have a2: "(0 :: 32 word) * ucast (wBlockAlign (fmt adpcm_reader))
              + data_starting_offset (fmt adpcm_reader) \<noteq> 0"
    by (simp add: adpcm_reader_def)
  show ?thesis
    using SetPosition_reports_failure [of pcm_reader float_frames_of_ms 0]
          SetPosition_reports_failure [of adpcm_reader float_frames_of_ms 0 0]
          p p1 a a1 a2
    by simp
qed

subsection \<open>Reading\<close>

lemma mod256_shift:
  fixes x :: int
  assumes "0 \<le> x" and "x < 256"
  shows "(x + 128) mod 256 - 128 = (if x < 128 then x else x - 256)"
proof (cases "x < 128")
  case True
  then have "(x + 128) mod 256 = x + 128" using assms by (intro mod_pos_pos_trivial) simp_all
  with True show ?thesis by simp
next
  case False
  have "x + 128 = (x - 128) + 256" by simp
  then have "(x + 128) mod 256 = ((x - 128) + 256) mod 256" by (rule arg_cong)
  also have "\<dots> = (x - 128) mod 256" by (rule mod_add_self2)
  also have "\<dots> = x - 128" using False assms by (intro mod_pos_pos_trivial) simp_all
  finally show ?thesis using False by simp
qed

lemma sint_byte_cases:
  "sint (b :: byte) = (if uint b < 128 then uint b else uint b - 256)"
proof -
  have "sint b = signed_take_bit 7 (uint b)" by (simp add: sint_uint)
  then have "sint b = (uint b + 128) mod 256 - 128"
    by (simp add: signed_take_bit_eq_take_bit_shift take_bit_eq_mod)
  moreover have "uint b < 256" using uint_lt2p [of b] by simp
  ultimately show ?thesis using mod256_shift [of "uint b"] by simp
qed

lemma widen8_word_of_int: "widen8 b = word_of_int ((uint b - 128) * 256)"
proof -
  have "widen8 b = word_of_int ((sint b - 128) * 256)"
    unfolding widen8_def
    by (simp add: push_bit_eq_mult ucast16_of_int32 [symmetric])
  also have "\<dots> = word_of_int ((uint b - 128) * 256)"
  proof (cases "uint b < 128")
    case True
    then show ?thesis by (simp add: sint_byte_cases)
  next
    case False
    have z: "(word_of_int 65536 :: 16 word) = 0" by (simp add: word_of_int_eq_0_iff)
    have "(sint b - 128) * 256 = (uint b - 128) * 256 - 65536"
      using False by (simp add: sint_byte_cases)
    then have "(word_of_int ((sint b - 128) * 256) :: 16 word)
                 = word_of_int ((uint b - 128) * 256) - word_of_int 65536"
      by (simp only: word_of_int_homs)
    then show ?thesis by (simp only: z diff_zero)
  qed
  finally show ?thesis .
qed

lemma widen8_sint: "sint (widen8 b) = (uint b - 128) * 256"
proof -
  have "uint b < 256" using uint_lt2p [of b] by simp
  moreover have "0 \<le> uint b" by simp
  ultimately have "- (2 ^ 15) \<le> (uint b - 128) * 256" "(uint b - 128) * 256 < 2 ^ 15"
    by simp_all
  then show ?thesis
    unfolding widen8_word_of_int by (rule sint16_of_int)
qed


lemma widen_samples_snoc:
  "widen_samples (xs @ [i]) buf t =
     (case widen_samples xs buf t of Inl x \<Rightarrow> Inl x | Inr t' \<Rightarrow> widen_samples [i] buf t')"
  by (induction xs arbitrary: t) simp_all

lemma widen_samples_upt:
  "n \<le> length buf \<Longrightarrow> n \<le> length t \<Longrightarrow>
     widen_samples [0..<n] buf t = Inr (map widen8 (take n buf) @ drop n t)"
proof (induction n)
  case 0
  then show ?case by simp
next
  case (Suc n)
  then have IH: "widen_samples [0..<n] buf t = Inr (map widen8 (take n buf) @ drop n t)" by simp
  have l: "n < length buf" "n < length t" using Suc.prems by simp_all
  have "(map widen8 (take n buf) @ drop n t)[n := widen8 (buf ! n)]
          = map widen8 (take n buf) @ (drop n t)[0 := widen8 (buf ! n)]"
    using l by (simp add: list_update_append)
  also have "\<dots> = map widen8 (take n buf) @ widen8 (buf ! n) # drop (Suc n) t"
    using l by (simp add: Cons_nth_drop_Suc [symmetric])
  also have "\<dots> = map widen8 (take (Suc n) buf) @ drop (Suc n) t"
    using l by (simp add: take_Suc_conv_app_nth)
  finally show ?case
    using l by (simp add: widen_samples_snoc IH)
qed

lemma le_word_bytes16: "(le_word (le_bytes16 w) :: 16 word) = w"
  apply (simp add: le_bytes16_def)
  apply (rule bit_word_eqI)
  apply (auto simp add: bit_simps)
  done

lemma length_le_bytes16: "length (concat (map le_bytes16 ws)) = 2 * length ws"
  by (induction ws) (simp_all add: le_bytes16_def)

lemma length_le_bytes16_map: "length (concat (map (le_bytes16 \<circ> f) xs)) = 2 * length xs"
  by (induction xs) (simp_all add: le_bytes16_def)

lemma dup_samples_snoc:
  "dup_samples (xs @ [i]) buf t =
     (case dup_samples xs buf t of Inl x \<Rightarrow> Inl x | Inr t' \<Rightarrow> dup_samples [i] buf t')"
  by (induction xs arbitrary: t) (simp_all add: Let_def)

lemma nth_sample_bytes:
  assumes "i < length ws"
  shows "(concat (map le_bytes16 ws) @ rest) ! (2 * i) = ucast (ws ! i)"
    and "(concat (map le_bytes16 ws) @ rest) ! (2 * i + 1) = ucast (drop_bit 8 (ws ! i))"
  using assms
proof (induction ws arbitrary: i)
  case Nil
  { case 1 then show ?case by simp }
  { case 2 then show ?case by simp }
next
  case (Cons w ws)
  { case 1 then show ?case using Cons.IH(1) [of "i - 1"]
      by (cases i) (simp_all add: le_bytes16_def) }
  { case 2 then show ?case using Cons.IH(2) [of "i - 1"]
      by (cases i) (simp_all add: le_bytes16_def) }
qed

lemma length_dup: "length (concat (map (\<lambda>w. [w, w]) xs)) = 2 * length xs"
  by (induction xs) simp_all

lemma length_dup_map: "length (concat (map ((\<lambda>w. [w, w]) \<circ> f) xs)) = 2 * length xs"
  by (induction xs) simp_all

lemma dup_samples_upt:
  assumes "n \<le> length ws" and "2 * n \<le> length t"
  shows "dup_samples [0..<n] (concat (map le_bytes16 ws) @ rest) t
           = Inr (concat (map (\<lambda>w. [w, w]) (take n ws)) @ drop (2 * n) t)"
  using assms
proof (induction n)
  case 0
  then show ?case by simp
next
  case (Suc n)
  let ?buf = "concat (map le_bytes16 ws) @ rest"
  let ?d = "concat (map (\<lambda>w. [w, w]) (take n ws))"
  have IH: "dup_samples [0..<n] ?buf t = Inr (?d @ drop (2 * n) t)" using Suc by simp
  have l: "n < length ws" "2 * n + 2 \<le> length t" using Suc.prems by simp_all
  have ld: "length ?d = 2 * n" using l by (simp add: length_dup)
  have lb: "2 * n + 2 \<le> length ?buf" using l by (simp add: length_le_bytes16)
  have v: "(le_word [?buf ! (2 * n), ?buf ! (2 * n + 1)] :: 16 word) = ws ! n"
    using nth_sample_bytes [OF l(1), of rest] le_word_bytes16 [of "ws ! n"]
    by (simp add: le_bytes16_def)
  have "drop (2 * n) t = t ! (2 * n) # drop (Suc (2 * n)) t"
    using l by (intro Cons_nth_drop_Suc [symmetric]) simp
  moreover have "drop (Suc (2 * n)) t = t ! (Suc (2 * n)) # drop (Suc (Suc (2 * n))) t"
    using l by (intro Cons_nth_drop_Suc [symmetric]) simp
  ultimately have dr: "drop (2 * n) t = t ! (2 * n) # t ! (2 * n + 1) # drop (2 * n + 2) t"
    by simp
  have "(?d @ drop (2 * n) t)[2 * n + 1 := ws ! n, 2 * n := ws ! n]
          = ?d @ [ws ! n, ws ! n] @ drop (2 * n + 2) t"
    by (subst dr) (simp add: list_update_append ld)
  also have "\<dots> = concat (map (\<lambda>w. [w, w]) (take (Suc n) ws)) @ drop (2 * Suc n) t"
    using l by (simp add: take_Suc_conv_app_nth)
  finally have u: "(?d @ drop (2 * n) t)[Suc (2 * n) := ws ! n, 2 * n := ws ! n]
          = concat (map (\<lambda>w. [w, w]) (take (Suc n) ws)) @ drop (2 * Suc n) t"
    by simp
  have v': "(le_word [?buf ! (2 * n), ?buf ! Suc (2 * n)] :: 16 word) = ws ! n"
    using v by simp
  show ?case
    using l lb ld u by (simp add: dup_samples_snoc IH Let_def v' del: le_word.simps)
qed


lemma write_bytes_0: "length bs \<le> length buf \<Longrightarrow> write_bytes buf 0 bs = Inr (bs @ drop (length bs) buf)"
  by (simp add: write_bytes_def)

lemma copy_samples_eq:
  assumes "n < 2 ^ 31" and "n \<le> length t" and "2 * n \<le> length buf"
  shows "copy_samples buf t (of_nat n) = Inr (concat (map le_bytes16 (take n t)) @ drop (2 * n) buf)"
  using assms
  by (simp add: copy_samples_def sint_cursor write_bytes_0 length_le_bytes16 min_def)

lemma of_nat32_sle0: "n < 2 ^ 31 \<Longrightarrow> ((of_nat n :: 32 word) \<le>s 0) = (n = 0)"
  by (simp add: word_sle_eq sint_cursor)

lemma of_nat32_not_m1: "n < 2 ^ 31 \<Longrightarrow> (of_nat n :: 32 word) \<noteq> - 1"
proof
  assume "n < 2 ^ 31" and "(of_nat n :: 32 word) = - 1"
  then have "sint (of_nat n :: 32 word) = - 1" by simp
  with \<open>n < 2 ^ 31\<close> show False by (simp add: sint_cursor)
qed

lemma int_div_half: "2 * n < 2 ^ 31 \<Longrightarrow> int_div (of_nat (2 * n)) 2 = Inr (of_nat n)"
proof -
  assume a: "2 * n < 2 ^ 31"
  have "sint (of_nat (2 * n) :: 32 word) = int (2 * n)" using a by (rule sint_cursor)
  moreover have "int (2 * n) sdiv 2 = int n" by (simp add: signed_divide_int_def sgn_if)
  ultimately show ?thesis by (simp add: int_div_def del: of_nat_mult)
qed

lemma read_sample_fmt_normal_eq:
  assumes "raw = take (unat A) (drop (cursor (rw s)) (contents (rw s)))"
    and "length raw \<le> length buf" and "length raw < 2 ^ 31"
  shows "read_sample_fmt_normal buf A s =
           Inr (of_nat (length raw), raw @ drop (length raw) buf, None,
                s\<lparr>rw := (rw s)\<lparr>cursor := cursor (rw s) + length raw\<rparr>\<rparr>)"
  using assms(2,3) of_nat32_not_m1 [of "length raw"]
  unfolding read_sample_fmt_normal_def fread_def Let_def assms(1) [symmetric]
  by (simp add: write_bytes_0)


lemma Read_normal_8bit:
  assumes tag: "wFormatTag (fmt s) = FMT_NORMAL"
    and conv: "Conversion s = CONV_8BIT_TO_16BIT"
    and ratio: "Input_Buffer_Ratio s = (if Channels s = 1 then 4 else 2)"
    and m: "len mod Input_Buffer_Ratio s = 0"
    and b: "unat len \<le> length buf" and l: "unat len < 2 ^ 31"
    and raw: "raw = take (unat (len div Input_Buffer_Ratio s))
                      (drop (cursor (rw s)) (contents (rw s)))"
    and out: "out = concat (map le_bytes16
                       (if Channels s = 1 then concat (map (\<lambda>b. [widen8 b, widen8 b]) raw)
                        else map widen8 raw))"
  shows "\<exists>t'. Read fresh t buf len s =
           Some (Inr (of_nat (length out), out @ drop (length out) buf, t', None,
                      s\<lparr>rw := (rw s)\<lparr>cursor := cursor (rw s) + length raw\<rparr>\<rparr>))"
proof -
  let ?r = "Input_Buffer_Ratio s"
  let ?n = "length raw"
  let ?s' = "s\<lparr>rw := (rw s)\<lparr>cursor := cursor (rw s) + length raw\<rparr>\<rparr>"
  have r0: "?r \<noteq> 0" using ratio by (simp split: if_splits)
  have ur: "unat ?r = (if Channels s = 1 then 4 else 2)" using ratio by (simp split: if_splits)
  have "?n \<le> unat (len div ?r)" unfolding raw by simp
  also have "\<dots> = unat len div unat ?r" by (simp add: unat_div)
  finally have nle: "?n \<le> unat len div unat ?r" .
  have "unat ?r * ?n \<le> unat ?r * (unat len div unat ?r)"
    using nle by (rule mult_le_mono2)
  also have "\<dots> \<le> unat len" by (rule times_div_less_eq_dividend)
  finally have rn: "unat ?r * ?n \<le> unat len" .
  have n2: "2 * ?n \<le> unat len" using rn ur by (simp split: if_splits)
  have n31: "?n < 2 ^ 31" "2 * ?n < 2 ^ 31" "?n \<le> length buf" "2 * ?n \<le> length buf"
    using n2 l b by simp_all
  have rs: "read_sample_fmt_normal buf (len div ?r) s =
              Inr (of_nat ?n, raw @ drop ?n buf, None, ?s')"
    using raw n31 by (intro read_sample_fmt_normal_eq) simp_all
  have cs: "Conversion ?s' = CONV_8BIT_TO_16BIT" "Channels ?s' = Channels s"
    using conv by simp_all
  show ?thesis
  proof (cases "?n = 0")
    case True
    then have "out = []" unfolding out by simp
    with True show ?thesis
      unfolding Read_def Let_def
      by (simp add: r0 m tag rs of_nat32_sle0)
  next
    case False
    define t1 where "t1 = (if length t < unat len then new_samples fresh (unat len) else t)"
    define ws where "ws = map widen8 raw"
    let ?buf1 = "raw @ drop ?n buf"
    have lws: "length ws = ?n" by (simp add: ws_def)
    have lt1: "unat len \<le> length t1" by (simp add: t1_def new_samples_def)
    have sle: "\<not> (of_nat ?n :: 32 word) \<le>s 0" using False n31 by (simp add: of_nat32_sle0)
    have ns: "nat (sint (of_nat ?n :: 32 word)) = ?n" using n31 by (simp add: sint_cursor)
    have w: "widen_samples [0..<?n] ?buf1 t1 = Inr (ws @ drop ?n t1)"
      using widen_samples_upt [of ?n ?buf1 t1] n2 lt1 by (simp add: ws_def)
    have c1: "copy_samples ?buf1 (ws @ drop ?n t1) (of_nat ?n)
                = Inr (concat (map le_bytes16 ws) @ drop (2 * ?n) buf)"
      using copy_samples_eq [of ?n "ws @ drop ?n t1" ?buf1] n31 lws by (simp add: mult_2)
    have m2: "(of_nat ?n :: 32 word) * 2 = of_nat (2 * ?n)" by simp
    show ?thesis
    proof (cases "Channels s = 1")
      case ch: False
      then have o: "out = concat (map le_bytes16 ws)" unfolding out ws_def by simp
      show ?thesis
        unfolding Read_def Let_def o t1_def [symmetric]
        using ch
        by (simp add: r0 m tag rs sle cs ns w c1 m2 length_le_bytes16 lws del: of_nat_mult)
    next
      case ch: True
      then have ur4: "unat ?r = 4" using ur by simp
      have n4: "4 * ?n \<le> unat len" using rn ur4 by simp
      let ?tw = "ws @ drop ?n t1"
      let ?buf2 = "concat (map le_bytes16 ws) @ drop (2 * ?n) buf"
      define dd where "dd = concat (map (\<lambda>w. [w, w]) ws)"
      have ltw: "length ?tw = length t1" using n2 lt1 lws by simp
      have h: "int_div (of_nat (2 * ?n)) 2 = Inr (of_nat ?n)" using n31 by (intro int_div_half)
      define tl2 where "tl2 = drop (2 * ?n) ?tw"
      have d: "dup_samples [0..<?n] ?buf2 ?tw = Inr (dd @ tl2)"
        using dup_samples_upt [of ?n ws ?tw "drop (2 * ?n) buf"] ltw lt1 n4 lws
        unfolding dd_def tl2_def by simp
      have ld: "length dd = 2 * ?n" by (simp add: dd_def length_dup lws)
      have l4: "2 * ?n < 2 ^ 31" "2 * ?n \<le> length (dd @ tl2)"
               "2 * (2 * ?n) \<le> length ?buf2"
        using n31 n4 b ltw lt1 lws by (simp_all add: ld length_le_bytes16)
      have c2: "copy_samples ?buf2 (dd @ tl2) (of_nat (2 * ?n))
                  = Inr (concat (map le_bytes16 dd) @ drop (4 * ?n) buf)"
        using copy_samples_eq [OF l4] n4 b ld lws
        by (simp add: length_le_bytes16)
      have o: "out = concat (map le_bytes16 dd)"
        unfolding out dd_def ws_def using ch by (simp add: comp_def)
      have m4: "(of_nat (2 * ?n) :: 32 word) * 2 = of_nat (4 * ?n)" by simp
      show ?thesis
        unfolding Read_def Let_def o t1_def [symmetric]
        using ch
        by (simp add: r0 m tag rs sle cs ns w c1 m2 h d c2 m4 length_le_bytes16 ld lws
              del: of_nat_mult)
    qed
  qed
qed


















lemma raw_length:
  "length (take (unat (len div r)) (drop c cs)) = min (unat len div unat r) (length cs - c)"
  by (simp add: unat_div)





lemma Read_normal_16bit_stereo:
  assumes tag: "wFormatTag (fmt s) = FMT_NORMAL"
    and conv: "Conversion s \<noteq> CONV_8BIT_TO_16BIT" and ch: "Channels s \<noteq> 1"
    and ratio: "Input_Buffer_Ratio s = 1"
    and b: "unat len \<le> length buf" and l: "unat len < 2 ^ 31"
    and raw: "raw = take (unat len) (drop (cursor (rw s)) (contents (rw s)))"
  shows "\<exists>t'. Read fresh t buf len s =
           Some (Inr (of_nat (length raw), raw @ drop (length raw) buf, t', None,
                      s\<lparr>rw := (rw s)\<lparr>cursor := cursor (rw s) + length raw\<rparr>\<rparr>))"
proof -
  let ?n = "length raw"
  have n: "?n \<le> unat len" unfolding raw by simp
  then have n31: "?n < 2 ^ 31" "?n \<le> length buf" using b l by simp_all
  have rs: "read_sample_fmt_normal buf len s =
              Inr (of_nat ?n, raw @ drop ?n buf, None,
                   s\<lparr>rw := (rw s)\<lparr>cursor := cursor (rw s) + length raw\<rparr>\<rparr>)"
    using raw n31 by (intro read_sample_fmt_normal_eq) simp_all
  show ?thesis
    unfolding Read_def Let_def
    using conv ch n31
    by (cases "?n = 0") (simp_all add: ratio tag rs of_nat32_sle0)
qed

text \<open>
  Claim C6. On an uncompressed 8-bit stream, mono or not, \<open>Read\<close> takes the raw bytes
  under the cursor and writes, for every raw byte \<open>b\<close>, the 16-bit sample \<open>widen8 b\<close>
  (twice in a row on a mono stream), low byte first. Read as a signed number, \<open>widen8 b\<close>
  is \<open>(b - 128) * 256\<close> with \<open>b\<close> read unsigned, so the byte 255 gives +32512. The
  request is one the caller may make: a multiple of the stream's ratio, within the
  buffer, and below \<open>2^31\<close> bytes.
\<close>

theorem Read_widens_8bit:
  assumes "wFormatTag (fmt s) = FMT_NORMAL"
    and "Conversion s = CONV_8BIT_TO_16BIT"
    and "Input_Buffer_Ratio s = (if Channels s = 1 then 4 else 2)"
    and "len mod Input_Buffer_Ratio s = 0"
    and "unat len \<le> length buf" and "unat len < 2 ^ 31"
    and "raw = take (unat (len div Input_Buffer_Ratio s))
                 (drop (cursor (rw s)) (contents (rw s)))"
    and "out = concat (map le_bytes16
                  (if Channels s = 1 then concat (map (\<lambda>b. [widen8 b, widen8 b]) raw)
                   else map widen8 raw))"
  shows "(\<exists>t'. Read fresh t buf len s =
            Some (Inr (of_nat (length out), out @ drop (length out) buf, t', None,
                       s\<lparr>rw := (rw s)\<lparr>cursor := cursor (rw s) + length raw\<rparr>\<rparr>)))
       \<and> (\<forall>b. sint (widen8 b) = (uint b - 128) * 256)
       \<and> sint (widen8 255) = 32512"
  using Read_normal_8bit [OF assms, of fresh t] widen8_sint by simp

theorem Read_widens_8bit_witness:
  "\<exists>t'. Read used_memory [] (replicate 16 0) 16 mono8_reader =
     Some (Inr (16, [0, 128, 0, 128, 0, 255, 0, 255, 0, 0, 0, 0, 0, 127, 0, 127], t', None,
                mono8_reader\<lparr>rw := (rw mono8_reader)\<lparr>cursor := 48\<rparr>\<rparr>))"
proof -
  have 1: "wFormatTag (fmt mono8_reader) = FMT_NORMAL" by (simp add: mono8_reader_def FMT_NORMAL_def)
  have 2: "Conversion mono8_reader = CONV_8BIT_TO_16BIT" by (simp add: mono8_reader_def)
  have 3: "Input_Buffer_Ratio mono8_reader = (if Channels mono8_reader = 1 then 4 else 2)"
    by (simp add: mono8_reader_def)
  have 4: "(16 :: 32 word) mod Input_Buffer_Ratio mono8_reader = 0"
    by (simp add: mono8_reader_def word_mod_def)
  have 5: "unat (16 :: 32 word) \<le> length (replicate 16 (0 :: byte))" by simp
  have 6: "unat (16 :: 32 word) < 2 ^ 31" by simp
  have 7: "[0, 127, 128, 255] = take (unat ((16 :: 32 word) div Input_Buffer_Ratio mono8_reader))
             (drop (cursor (rw mono8_reader)) (contents (rw mono8_reader)))"
    by code_simp
  have 8: "[0, 128, 0, 128, 0, 255, 0, 255, 0, 0, 0, 0, 0, 127, 0, 127] =
           concat (map le_bytes16
                  (if Channels mono8_reader = 1
                   then concat (map (\<lambda>b. [widen8 b, widen8 b]) [0, 127, 128, 255])
                   else map widen8 [0, 127, 128, 255]))"
    by code_simp
  have c: "cursor (rw mono8_reader) = 44" by (simp add: mono8_reader_def)
  show ?thesis
    using Read_widens_8bit [OF 1 2 3 4 5 6 7 8, of used_memory "[]"] by (simp add: c)
qed

lemma length_widen_dup:
  "length (concat (map le_bytes16 (concat (map (\<lambda>b. [widen8 b, widen8 b]) raw)))) = 4 * length raw"
  by (induction raw) (simp_all add: le_bytes16_def)

text \<open>
  Claim C7. A read on an uncompressed stream, asked for a multiple of the ratio that
  fits the buffer and is below \<open>2^31\<close>, completes without error; \<open>raw\<close> are the bytes
  it takes from the file and \<open>N\<close> is their number, the request divided by the ratio or
  what is left of the file. On a mono 8-bit stream (ratio 4) it moves the cursor by
  \<open>N\<close>, returns \<open>4 * N\<close> and leaves in the buffer the \<open>4 * N\<close> bytes of the widened and
  duplicated samples, followed by what the buffer held from byte \<open>4 * N\<close> on. On a
  stereo 16-bit stream (ratio 1) it returns \<open>N\<close> and leaves the \<open>N\<close> raw bytes, followed
  by what the buffer held from byte \<open>N\<close> on.
\<close>

theorem Read_output_byte_count:
  assumes tag: "wFormatTag (fmt s) = FMT_NORMAL"
    and m: "len mod Input_Buffer_Ratio s = 0"
    and b: "unat len \<le> length buf" and l: "unat len < 2 ^ 31"
    and raw: "raw = take (unat (len div Input_Buffer_Ratio s))
                      (drop (cursor (rw s)) (contents (rw s)))"
    and N: "N = length raw"
  shows "(Conversion s = CONV_8BIT_TO_16BIT \<and> Channels s = 1 \<and> Input_Buffer_Ratio s = 4 \<longrightarrow>
           (\<exists>t'. Read fresh t buf len s =
               Some (Inr (of_nat (4 * N),
                          concat (map le_bytes16 (concat (map (\<lambda>b. [widen8 b, widen8 b]) raw)))
                            @ drop (4 * N) buf,
                          t', None, s\<lparr>rw := (rw s)\<lparr>cursor := cursor (rw s) + N\<rparr>\<rparr>)))
           \<and> length (concat (map le_bytes16 (concat (map (\<lambda>b. [widen8 b, widen8 b]) raw))))
               = 4 * N
           \<and> sint (of_nat (4 * N) :: 32 word) = 4 * int N)
       \<and> (Conversion s = CONV_16LSB_TO_16SYS \<and> Channels s = 2 \<and> Input_Buffer_Ratio s = 1 \<longrightarrow>
           (\<exists>t'. Read fresh t buf len s =
               Some (Inr (of_nat N, raw @ drop N buf,
                          t', None, s\<lparr>rw := (rw s)\<lparr>cursor := cursor (rw s) + N\<rparr>\<rparr>)))
           \<and> sint (of_nat N :: 32 word) = int N)
       \<and> N = min (unat len div unat (Input_Buffer_Ratio s))
                 (length (contents (rw s)) - cursor (rw s))"
proof (intro conjI impI)
  show "N = min (unat len div unat (Input_Buffer_Ratio s))
                (length (contents (rw s)) - cursor (rw s))"
    unfolding N raw by (rule raw_length)
next
  assume a: "Conversion s = CONV_8BIT_TO_16BIT \<and> Channels s = 1 \<and> Input_Buffer_Ratio s = 4"
  define out where "out = concat (map le_bytes16
                  (if Channels s = 1 then concat (map (\<lambda>b. [widen8 b, widen8 b]) raw)
                   else map widen8 raw))"
  have o: "out = concat (map le_bytes16 (concat (map (\<lambda>b. [widen8 b, widen8 b]) raw)))"
    unfolding out_def using a by simp
  have r: "Input_Buffer_Ratio s = (if Channels s = 1 then 4 else 2)" using a by simp
  have lo: "length out = 4 * N" unfolding o N by (rule length_widen_dup)
  have c: "Conversion s = CONV_8BIT_TO_16BIT" using a by simp
  show "\<exists>t'. Read fresh t buf len s =
               Some (Inr (of_nat (4 * N),
                          concat (map le_bytes16 (concat (map (\<lambda>b. [widen8 b, widen8 b]) raw)))
                            @ drop (4 * N) buf,
                          t', None, s\<lparr>rw := (rw s)\<lparr>cursor := cursor (rw s) + N\<rparr>\<rparr>))"
    using Read_normal_8bit [OF tag c r m b l raw out_def, of fresh t]
    unfolding o length_widen_dup N [symmetric] .
  show "length (concat (map le_bytes16 (concat (map (\<lambda>b. [widen8 b, widen8 b]) raw)))) = 4 * N"
    using lo unfolding o .
  have "N = min (unat len div unat (Input_Buffer_Ratio s))
                (length (contents (rw s)) - cursor (rw s))"
    unfolding N raw by (rule raw_length)
  hence "N \<le> unat len div 4" using a by simp
  hence "4 * N \<le> 4 * (unat len div 4)" by simp
  also have "\<dots> \<le> unat len" by (rule times_div_less_eq_dividend)
  finally have "4 * N < 2 ^ 31" using l by simp
  thus "sint (of_nat (4 * N) :: 32 word) = 4 * int N"
    using sint_cursor [of "4 * N"] by simp
next
  assume a: "Conversion s = CONV_16LSB_TO_16SYS \<and> Channels s = 2 \<and> Input_Buffer_Ratio s = 1"
  have raw': "raw = take (unat len) (drop (cursor (rw s)) (contents (rw s)))"
    unfolding raw using a by simp
  have c: "Conversion s \<noteq> CONV_8BIT_TO_16BIT" "Channels s \<noteq> 1" "Input_Buffer_Ratio s = 1"
    using a by simp_all
  show "\<exists>t'. Read fresh t buf len s =
               Some (Inr (of_nat N, raw @ drop N buf,
                          t', None, s\<lparr>rw := (rw s)\<lparr>cursor := cursor (rw s) + N\<rparr>\<rparr>))"
    using Read_normal_16bit_stereo [OF tag c b l raw', of fresh t]
    unfolding N [symmetric] .
  have "N \<le> unat len" unfolding N raw' by simp
  hence "N < 2 ^ 31" using l by simp
  thus "sint (of_nat N :: 32 word) = int N" by (rule sint_cursor)
qed

theorem Read_output_byte_count_witness:
  "(\<exists>t'. Read used_memory [] (replicate 10 7) 8 mono8_reader =
       Some (Inr (8, [0, 128, 0, 128, 0, 255, 0, 255] @ replicate 2 7, t', None,
                  mono8_reader\<lparr>rw := (rw mono8_reader)\<lparr>cursor := 46\<rparr>\<rparr>)))
   \<and> (\<exists>t'. Read used_memory [] (replicate 10 7) 8 pcm_reader =
       Some (Inr (8, [1, 2, 3, 4, 5, 6, 7, 8] @ replicate 2 7, t', None,
                  pcm_reader\<lparr>rw := (rw pcm_reader)\<lparr>cursor := 52\<rparr>\<rparr>)))"
proof -
  have a1: "wFormatTag (fmt mono8_reader) = FMT_NORMAL" by (simp add: mono8_reader_def FMT_NORMAL_def)
  have a2: "(8 :: 32 word) mod Input_Buffer_Ratio mono8_reader = 0"
    by (simp add: mono8_reader_def word_mod_def)
  have a3: "unat (8 :: 32 word) \<le> length (replicate 10 (7 :: byte))" by simp
  have a4: "unat (8 :: 32 word) < 2 ^ 31" by simp
  have a5: "[0, 127] = take (unat ((8 :: 32 word) div Input_Buffer_Ratio mono8_reader))
                         (drop (cursor (rw mono8_reader)) (contents (rw mono8_reader)))"
    by code_simp
  have a6: "Conversion mono8_reader = CONV_8BIT_TO_16BIT \<and> Channels mono8_reader = 1
            \<and> Input_Buffer_Ratio mono8_reader = 4"
    by (simp add: mono8_reader_def)
  have a7: "concat (map le_bytes16 (concat (map (\<lambda>b. [widen8 b, widen8 b]) [0, 127])))
              = [0, 128, 0, 128, 0, 255, 0, 255]"
    by code_simp
  have a8: "cursor (rw mono8_reader) = 44" by (simp add: mono8_reader_def)
  have b1: "wFormatTag (fmt pcm_reader) = FMT_NORMAL" by (simp add: pcm_reader_def FMT_NORMAL_def)
  have b2: "(8 :: 32 word) mod Input_Buffer_Ratio pcm_reader = 0"
    by (simp add: pcm_reader_def word_mod_def)
  have b5: "[1, 2, 3, 4, 5, 6, 7, 8] = take (unat ((8 :: 32 word) div Input_Buffer_Ratio pcm_reader))
                         (drop (cursor (rw pcm_reader)) (contents (rw pcm_reader)))"
    by code_simp
  have b6: "Conversion pcm_reader = CONV_16LSB_TO_16SYS \<and> Channels pcm_reader = 2
            \<and> Input_Buffer_Ratio pcm_reader = 1"
    by (simp add: pcm_reader_def)
  have b8: "cursor (rw pcm_reader) = 44" by (simp add: pcm_reader_def)
  have n2: "(2 :: nat) = length [0 :: byte, 127]" by simp
  have n8: "(8 :: nat) = length [1 :: byte, 2, 3, 4, 5, 6, 7, 8]" by simp
  note A = Read_output_byte_count [OF a1 a2 a3 a4 a5 n2, of used_memory "[]",
             THEN conjunct1, THEN mp, OF a6, THEN conjunct1]
  note B = Read_output_byte_count [OF b1 b2 a3 a4 b5 n8, of used_memory "[]",
             THEN conjunct2, THEN conjunct1, THEN mp, OF b6, THEN conjunct1]
  show ?thesis using A B unfolding a7 a8 b8 by simp
qed




end
